theory Spec2Isabelle
  imports Main "HOL-Library.Sublist"
begin

section \<open>Space Invaders: the simulation core of main.py\<close>

text \<open>
  The game state of \<^verbatim>\<open>main.py\<close> is embedded as records, every method as a function
  that takes the state and returns the updated one. Python integers are \<open>int\<close>.
  Modelling decisions, all visible in the definitions below:
  \<^item> \<^verbatim>\<open>pygame.Rect\<close> is a library type; it is modelled as a record of four integers with
    the accessors the source reads and writes. Its coordinates are unbounded integers here.
  \<^item> \<^verbatim>\<open>math.ceil(enemy.speed * ENEMY_DROP_SPEED_MULTIPLIER)\<close> is a product of a Python
    integer and the binary64 constant \<^verbatim>\<open>1.1\<close>: the integer is converted to binary64, the
    product is rounded to binary64 (53 significant bits, ties to even), and the ceiling
    of that rounded value is taken. The rounding is modelled bit for bit; an integer or a
    product that leaves the range of binary64 raises \<^verbatim>\<open>OverflowError\<close>, which is a
    value of the model (nothing in the source catches it).
  \<^item> Drawing changes no field of the state and is left out. The events and the keys the
    host delivers are inputs of the functions that poll them.
  \<^item> A function that may raise returns \<open>error + 'a\<close>; a function that may wait for ever
    returns \<open>'a option\<close>, \<open>None\<close> meaning that it has not returned. \<^verbatim>\<open>_update\<close> may
    do both and returns \<open>error + game option\<close>.
\<close>

subsection \<open>Game configuration constants (lines 16 to 33)\<close>

definition WIDTH :: int where "WIDTH = 800"
definition HEIGHT :: int where "HEIGHT = 600"
definition FPS :: int where "FPS = 60"
definition PLAYER_SPEED :: int where "PLAYER_SPEED = 5"
definition BULLET_SPEED :: int where "BULLET_SPEED = 8"
definition ENEMY_ROWS :: int where "ENEMY_ROWS = 4"
definition ENEMY_COLS :: int where "ENEMY_COLS = 8"
definition ENEMY_HORIZONTAL_PADDING :: int where "ENEMY_HORIZONTAL_PADDING = 60"
definition ENEMY_VERTICAL_PADDING :: int where "ENEMY_VERTICAL_PADDING = 50"
definition ENEMY_HORIZONTAL_SPACING :: int where "ENEMY_HORIZONTAL_SPACING = 60"
definition ENEMY_VERTICAL_SPACING :: int where "ENEMY_VERTICAL_SPACING = 50"
definition ENEMY_VERTICAL_STEP :: int where "ENEMY_VERTICAL_STEP = 20"
definition ENEMY_SPEED :: int where "ENEMY_SPEED = 1"
definition PLAYER_LIVES :: int where "PLAYER_LIVES = 3"
definition ENEMY_WIDTH :: int where "ENEMY_WIDTH = 40"
definition ENEMY_HEIGHT :: int where "ENEMY_HEIGHT = 30"

subsection \<open>pygame.Rect\<close>

text \<open>
  Modelled from the spec: \<^verbatim>\<open>pygame.Rect\<close> is not part of the repository. The spec's
  rectangle is \<open>{x, y, width, height}\<close> with the derived accessors left, right, top,
  bottom and center, and an overlap test that is true when the intervals of each axis
  overlap with non-zero measure (edges that merely touch do not collide). The accessors
  follow pygame: \<open>right = x + w\<close>, \<open>bottom = y + h\<close>, \<open>centerx = x + w // 2\<close>, and
  assigning \<open>centerx\<close> moves \<open>x\<close> to \<open>centerx - w // 2\<close>. \<open>colliderect\<close> is
  pygame's test: on rectangles of positive size, as all rectangles of the game are, it is
  the strict overlap of the spec; a rectangle of width or height 0 collides with nothing.
\<close>

record rect =
  rect_x :: int
  rect_y :: int
  rect_w :: int
  rect_h :: int

definition Rect :: "int \<Rightarrow> int \<Rightarrow> int \<Rightarrow> int \<Rightarrow> rect" where
  "Rect a b c d = \<lparr>rect_x = a, rect_y = b, rect_w = c, rect_h = d\<rparr>"

definition left :: "rect \<Rightarrow> int" where "left r = rect_x r"
definition right :: "rect \<Rightarrow> int" where "right r = rect_x r + rect_w r"
definition top_edge :: "rect \<Rightarrow> int" where "top_edge r = rect_y r"
definition bottom :: "rect \<Rightarrow> int" where "bottom r = rect_y r + rect_h r"
definition centerx :: "rect \<Rightarrow> int" where "centerx r = rect_x r + rect_w r div 2"

definition set_centerx :: "int \<Rightarrow> rect \<Rightarrow> rect" where
  "set_centerx c r = r\<lparr>rect_x := c - rect_w r div 2\<rparr>"

definition colliderect :: "rect \<Rightarrow> rect \<Rightarrow> bool" where
  "colliderect a b =
     (if rect_w a = 0 \<or> rect_h a = 0 \<or> rect_w b = 0 \<or> rect_h b = 0 then False
      else min (rect_x a) (rect_x a + rect_w a) < max (rect_x b) (rect_x b + rect_w b)
         \<and> min (rect_y a) (rect_y a + rect_h a) < max (rect_y b) (rect_y b + rect_h b)
         \<and> max (rect_x a) (rect_x a + rect_w a) > min (rect_x b) (rect_x b + rect_w b)
         \<and> max (rect_y a) (rect_y a + rect_h a) > min (rect_y b) (rect_y b + rect_h b))"

subsection \<open>Rounding to binary64 and the speed after a drop (line 168)\<close>

text \<open>\<^verbatim>\<open>int.bit_length\<close>: the number of binary digits of a natural number.\<close>

fun bit_length :: "nat \<Rightarrow> nat" where
  "bit_length n = (if n = 0 then 0 else Suc (bit_length (n div 2)))"

declare bit_length.simps [simp del]

text \<open>
  \<open>round53 n\<close> is the natural number nearest to \<open>n\<close> that has at most 53 significant
  bits, ties going to the even significand: what the conversion of an integer to binary64
  and the rounding of an exact binary64 product do.
\<close>

definition round53 :: "nat \<Rightarrow> nat" where
  "round53 n =
     (if bit_length n \<le> 53 then n
      else let sh = bit_length n - 53;
               q = n div 2 ^ sh;
               r = n mod 2 ^ sh;
               half = 2 ^ (sh - 1)
           in (if half < r \<or> (r = half \<and> odd q) then q + 1 else q) * 2 ^ sh)"

text \<open>
  The binary64 constant \<^verbatim>\<open>1.1\<close> is \<open>0x1.199999999999ap+0\<close>, that is
  \<open>2476979795053773 / 2 ^ 51\<close>.
\<close>

definition MULT_NUM :: nat where "MULT_NUM = 2476979795053773"
definition MULT_EXP :: nat where "MULT_EXP = 51"

datatype error = OverflowError

text \<open>
  \<^verbatim>\<open>math.ceil(speed * ENEMY_DROP_SPEED_MULTIPLIER)\<close>: \<open>round53 (nat \<bar>s\<bar>)\<close> is the
  magnitude of \<open>float(speed)\<close>; the conversion raises \<^verbatim>\<open>OverflowError\<close> when it
  reaches \<open>2 ^ 1024\<close>. Its product with \<open>MULT_NUM\<close> is the exact product scaled by
  \<open>2 ^ 51\<close>, and \<open>round53\<close> of that is the binary64 product; when it reaches
  \<open>2 ^ 1024\<close> (scaled), the product is infinite and \<^verbatim>\<open>math.ceil\<close> raises
  \<^verbatim>\<open>OverflowError\<close>. Otherwise the ceiling is taken, with the sign of \<open>s\<close>.
\<close>

definition drop_speed :: "int \<Rightarrow> error + int" where
  "drop_speed s =
     (let f = round53 (nat \<bar>s\<bar>)
      in if 2 ^ 1024 \<le> f then Inl OverflowError
         else let p = round53 (f * MULT_NUM)
              in if 2 ^ (1024 + MULT_EXP) \<le> p then Inl OverflowError
                 else Inr (if 0 \<le> s then - ((- int p) div 2 ^ MULT_EXP)
                           else - (int p div 2 ^ MULT_EXP)))"

subsection \<open>Entities (lines 36 to 84)\<close>

record bullet =
  b_rect :: rect
  b_speed :: int
  active :: bool

record enemy =
  e_rect :: rect
  e_speed :: int

record player =
  p_rect :: rect
  lives :: int
  cooldown :: int

text \<open>\<^verbatim>\<open>Bullet.update\<close>\<close>

definition Bullet_update :: "bullet \<Rightarrow> bullet" where
  "Bullet_update b =
     (let b1 = b\<lparr>b_rect := (b_rect b)\<lparr>rect_y := rect_y (b_rect b) - b_speed b\<rparr>\<rparr>
      in if bottom (b_rect b1) < 0 then b1\<lparr>active := False\<rparr> else b1)"

text \<open>\<^verbatim>\<open>Player.__init__\<close>\<close>

definition Player_init :: player where
  "Player_init = \<lparr>p_rect = Rect (WIDTH div 2 - 25) (HEIGHT - 60) 50 30,
                  lives = PLAYER_LIVES, cooldown = 0\<rparr>"

text \<open>\<^verbatim>\<open>Player.move\<close>\<close>

definition Player_move :: "int \<Rightarrow> player \<Rightarrow> player" where
  "Player_move dx p =
     (let r1 = (p_rect p)\<lparr>rect_x := rect_x (p_rect p) + dx * PLAYER_SPEED\<rparr>;
          r2 = r1\<lparr>rect_x := max 0 (min (WIDTH - rect_w r1) (rect_x r1))\<rparr>
      in p\<lparr>p_rect := r2\<rparr>)"

text \<open>\<^verbatim>\<open>Player.update\<close>\<close>

definition Player_update :: "player \<Rightarrow> player" where
  "Player_update p = (if cooldown p > 0 then p\<lparr>cooldown := cooldown p - 1\<rparr> else p)"

text \<open>\<^verbatim>\<open>Player.shoot\<close>: the bullet returned, if any, and the player afterwards.\<close>

definition Player_shoot :: "player \<Rightarrow> bullet option \<times> player" where
  "Player_shoot p =
     (if cooldown p = 0
      then (Some \<lparr>b_rect = Rect (centerx (p_rect p) - 3) (top_edge (p_rect p) - 10) 6 12,
                  b_speed = BULLET_SPEED, active = True\<rparr>,
            p\<lparr>cooldown := FPS div 4\<rparr>)
      else (None, p))"

subsection \<open>The game (lines 87 to 115)\<close>

record game =
  player :: player
  bullets :: "bullet list"
  enemies :: "enemy list"
  enemy_direction :: int
  level :: int
  score :: int
  running :: bool

text \<open>
  \<^verbatim>\<open>SpaceInvaders._spawn_enemies\<close>. The two nested \<^verbatim>\<open>for\<close> loops append to the cleared
  list, row by row; \<open>[0..n - 1]\<close> is \<^verbatim>\<open>range(n)\<close>.
\<close>

definition spawn_row :: "int \<Rightarrow> int \<Rightarrow> int \<Rightarrow> enemy list" where
  "spawn_row lvl start_x row =
     map (\<lambda>col. \<lparr>e_rect = Rect (start_x + col * ENEMY_HORIZONTAL_SPACING)
                             (ENEMY_VERTICAL_PADDING + row * ENEMY_VERTICAL_SPACING)
                             ENEMY_WIDTH ENEMY_HEIGHT,
                 e_speed = ENEMY_SPEED + lvl - 1\<rparr>)
         [0..ENEMY_COLS - 1]"

definition spawn_enemies :: "game \<Rightarrow> game" where
  "spawn_enemies g =
     (let total_width = (ENEMY_COLS - 1) * ENEMY_HORIZONTAL_SPACING + ENEMY_WIDTH;
          start_x = max ENEMY_HORIZONTAL_PADDING ((WIDTH - total_width) div 2)
      in g\<lparr>enemies := concat (map (spawn_row (level g) start_x) [0..ENEMY_ROWS - 1]),
            enemy_direction := 1\<rparr>)"

text \<open>\<^verbatim>\<open>SpaceInvaders.__init__\<close>\<close>

definition game_init :: game where
  "game_init =
     spawn_enemies \<lparr>player = Player_init, bullets = [], enemies = [], enemy_direction = 1,
                    level = 1, score = 0, running = True\<rparr>"

subsection \<open>Input: events and keys (lines 124 to 141)\<close>

text \<open>
  The keys and events the source tells apart. What \<^verbatim>\<open>pygame.event.get()\<close> and
  \<^verbatim>\<open>pygame.key.get_pressed()\<close> return in a tick is an input of that tick;
  \<open>over_events\<close> are the event batches that the successive polls of the game-over
  screen return, should this tick open it.
\<close>

datatype key = K_ESCAPE | K_RETURN | K_SPACE | K_LEFT | K_RIGHT | K_a | K_d | K_other

datatype event = QUIT | KEYDOWN key | OTHER_EVENT

record tick_input =
  events :: "event list"
  pressed :: "key list"
  over_events :: "event list list"

fun events_loop :: "event list \<Rightarrow> game \<Rightarrow> game" where
  "events_loop [] g = g"
| "events_loop (ev # evs) g =
     events_loop evs
       (if ev = QUIT then g\<lparr>running := False\<rparr>
        else if ev = KEYDOWN K_ESCAPE then g\<lparr>running := False\<rparr>
        else g)"

text \<open>\<^verbatim>\<open>SpaceInvaders._handle_events\<close>\<close>

definition handle_events :: "tick_input \<Rightarrow> game \<Rightarrow> game" where
  "handle_events i g =
     (let g1 = events_loop (events i) g;
          move_left = (List.member (pressed i) K_LEFT \<or> List.member (pressed i) K_a);
          move_right = (List.member (pressed i) K_RIGHT \<or> List.member (pressed i) K_d);
          dx = (if move_right then 1 else 0) - (if move_left then 1 else (0::int));
          g2 = (if dx = 0 then g1 else g1\<lparr>player := Player_move dx (player g1)\<rparr>)
      in if List.member (pressed i) K_SPACE
         then (case Player_shoot (player g2) of
                 (Some b, p) \<Rightarrow> g2\<lparr>player := p, bullets := bullets g2 @ [b]\<rparr>
               | (None, p) \<Rightarrow> g2\<lparr>player := p\<rparr>)
         else g2)"

subsection \<open>The game-over screen (lines 199 to 243)\<close>

text \<open>
  One pass of the \<^verbatim>\<open>for event in pygame.event.get()\<close> loop of
  \<^verbatim>\<open>_display_message\<close> over the flag \<^verbatim>\<open>waiting\<close> and the state.
\<close>

fun message_events :: "event list \<Rightarrow> bool \<times> game \<Rightarrow> bool \<times> game" where
  "message_events [] wg = wg"
| "message_events (ev # evs) (waiting, g) =
     message_events evs
       (if ev = QUIT then (False, g\<lparr>running := False\<rparr>)
        else if ev = KEYDOWN K_RETURN \<or> ev = KEYDOWN K_SPACE \<or> ev = KEYDOWN K_ESCAPE
        then (False, g)
        else (waiting, g))"

text \<open>
  \<^verbatim>\<open>SpaceInvaders._display_message\<close>: the \<^verbatim>\<open>while waiting\<close> loop polls one batch
  of events per round. It returns once a batch has cleared \<^verbatim>\<open>waiting\<close>; with no such
  batch among the polls it never returns, which is the value \<open>None\<close>.
\<close>

fun display_message :: "event list list \<Rightarrow> game \<Rightarrow> game option" where
  "display_message [] g = None"
| "display_message (evs # rest) g =
     (case message_events evs (True, g) of
        (waiting, g') \<Rightarrow> if waiting then display_message rest g' else Some g')"

text \<open>\<^verbatim>\<open>SpaceInvaders._game_over\<close>\<close>

definition game_over :: "event list list \<Rightarrow> game \<Rightarrow> game option" where
  "game_over evss g =
     (case display_message evss g of
        None \<Rightarrow> None
      | Some g' \<Rightarrow> Some (g'\<lparr>running := False\<rparr>))"

text \<open>\<^verbatim>\<open>SpaceInvaders._lose_life\<close>\<close>

definition lose_life :: "event list list \<Rightarrow> game \<Rightarrow> game option" where
  "lose_life evss g =
     (let g1 = g\<lparr>player := (player g)\<lparr>lives := lives (player g) - 1\<rparr>\<rparr>
      in if lives (player g1) \<le> 0 then game_over evss g1
         else Some (spawn_enemies
                (g1\<lparr>player := (player g1)\<lparr>p_rect := set_centerx (WIDTH div 2) (p_rect (player g1)),
                                         cooldown := FPS div 2\<rparr>,
                     bullets := []\<rparr>)))"

subsection \<open>Collision resolution (lines 172 to 187)\<close>

text \<open>
  The inner loop of the bullet pass: the first enemy, in list order, whose rectangle
  collides with the bullet's.
\<close>

fun first_hit :: "rect \<Rightarrow> enemy list \<Rightarrow> enemy option" where
  "first_hit r [] = None"
| "first_hit r (e # es) = (if colliderect r (e_rect e) then Some e else first_hit r es)"

text \<open>
  The outer loop of the bullet pass, over the bullets in order, threading the enemy list
  and the score. \<^verbatim>\<open>self.enemies.remove(enemy)\<close> removes the first element equal to
  \<^verbatim>\<open>enemy\<close> (the dataclass compares by fields), which is \<open>remove1\<close>. The bullet stays
  in the list; only its flag changes.
\<close>

fun bullet_loop :: "bullet list \<Rightarrow> enemy list \<Rightarrow> int \<Rightarrow> bullet list \<times> enemy list \<times> int" where
  "bullet_loop [] es sc = ([], es, sc)"
| "bullet_loop (b # bs) es sc =
     (case first_hit (b_rect b) es of
        None \<Rightarrow> (case bullet_loop bs es sc of (bs', r) \<Rightarrow> (b # bs', r))
      | Some e \<Rightarrow> (case bullet_loop bs (remove1 e es) (sc + 10) of
                     (bs', r) \<Rightarrow> (b\<lparr>active := False\<rparr> # bs', r)))"

text \<open>
  The enemy pass: the first enemy that touches the player or has reached the danger
  line costs a life, and the loop ends there.
\<close>

fun enemy_loop :: "event list list \<Rightarrow> enemy list \<Rightarrow> game \<Rightarrow> game option" where
  "enemy_loop evss [] g = Some g"
| "enemy_loop evss (e # es) g =
     (if colliderect (e_rect e) (p_rect (player g)) then lose_life evss g
      else if bottom (e_rect e) \<ge> HEIGHT - 80 then lose_life evss g
      else enemy_loop evss es g)"

text \<open>\<^verbatim>\<open>SpaceInvaders._handle_collisions\<close>\<close>

definition handle_collisions :: "event list list \<Rightarrow> game \<Rightarrow> game option" where
  "handle_collisions evss g =
     (case bullet_loop (bullets g) (enemies g) (score g) of
        (bs, es, sc) \<Rightarrow>
          enemy_loop evss es (g\<lparr>bullets := bs, enemies := es, score := sc\<rparr>))"

subsection \<open>The simulation step (lines 143 to 170)\<close>

text \<open>Lines 144 to 147: cooldown decay, bullet movement, and the filter on \<open>active\<close>.\<close>

definition update_bullets :: "game \<Rightarrow> game" where
  "update_bullets g =
     g\<lparr>player := Player_update (player g),
       bullets := filter active (map Bullet_update (bullets g))\<rparr>"

text \<open>Lines 149 to 151: the wave-clear check.\<close>

definition respawn_if_empty :: "game \<Rightarrow> game" where
  "respawn_if_empty g =
     (if enemies g = [] then spawn_enemies (g\<lparr>level := level g + 1\<rparr>) else g)"

text \<open>\<^verbatim>\<open>min(..., default=d)\<close> and \<^verbatim>\<open>max(..., default=d)\<close> over a list of integers.\<close>

fun min_default :: "int list \<Rightarrow> int \<Rightarrow> int" where
  "min_default [] d = d"
| "min_default (v # vs) d = fold min vs v"

fun max_default :: "int list \<Rightarrow> int \<Rightarrow> int" where
  "max_default [] d = d"
| "max_default (v # vs) d = fold max vs v"

text \<open>The two per-enemy loop bodies of lines 163 to 168.\<close>

definition move_x :: "int \<Rightarrow> enemy \<Rightarrow> enemy" where
  "move_x dir e = e\<lparr>e_rect := (e_rect e)\<lparr>rect_x := rect_x (e_rect e) + e_speed e * dir\<rparr>\<rparr>"

definition drop_enemy :: "enemy \<Rightarrow> error + enemy" where
  "drop_enemy e =
     (case drop_speed (e_speed e) of
        Inl err \<Rightarrow> Inl err
      | Inr v \<Rightarrow>
          Inr (e\<lparr>e_rect := (e_rect e)\<lparr>rect_y := rect_y (e_rect e) + ENEMY_VERTICAL_STEP\<rparr>,
                 e_speed := v\<rparr>))"

text \<open>The loop of lines 166 to 168 over the enemies; it ends at the first one that raises.\<close>

fun drop_loop :: "enemy list \<Rightarrow> error + enemy list" where
  "drop_loop [] = Inr []"
| "drop_loop (e # es) =
     (case drop_enemy e of
        Inl err \<Rightarrow> Inl err
      | Inr e' \<Rightarrow> (case drop_loop es of Inl err \<Rightarrow> Inl err | Inr es' \<Rightarrow> Inr (e' # es')))"

text \<open>Lines 153 to 168: the formation advance.\<close>

definition advance_enemies :: "game \<Rightarrow> error + game" where
  "advance_enemies g =
     (let leftmost = min_default (map (\<lambda>e. left (e_rect e)) (enemies g)) 0;
          rightmost = max_default (map (\<lambda>e. right (e_rect e)) (enemies g)) WIDTH;
          (move_down, dir) =
             (if leftmost \<le> 10 \<and> enemy_direction g < 0 then (True, 1)
              else if rightmost \<ge> WIDTH - 10 \<and> enemy_direction g > 0 then (True, - 1)
              else (False, enemy_direction g));
          es1 = map (move_x dir) (enemies g)
      in case (if move_down then drop_loop es1 else Inr es1) of
           Inl err \<Rightarrow> Inl err
         | Inr es2 \<Rightarrow> Inr (g\<lparr>enemies := es2, enemy_direction := dir\<rparr>))"

text \<open>\<^verbatim>\<open>SpaceInvaders._update\<close>\<close>

definition update :: "event list list \<Rightarrow> game \<Rightarrow> error + game option" where
  "update evss g =
     (case advance_enemies (respawn_if_empty (update_bullets g)) of
        Inl err \<Rightarrow> Inl err
      | Inr g1 \<Rightarrow> Inr (handle_collisions evss g1))"

subsection \<open>The main loop (lines 117 to 122)\<close>

text \<open>One round of the loop body: \<^verbatim>\<open>_handle_events\<close>, then \<^verbatim>\<open>_update\<close>.\<close>

definition tick :: "tick_input \<Rightarrow> game \<Rightarrow> error + game option" where
  "tick i g = update (over_events i) (handle_events i g)"

text \<open>
  \<^verbatim>\<open>SpaceInvaders.run\<close> on the inputs of the coming ticks. The loop returns the state
  in which it finds \<^verbatim>\<open>running\<close> false; \<open>Inr None\<close> says that it has not returned
  on these inputs, \<open>Inl\<close> that a tick has raised.
\<close>

fun run :: "tick_input list \<Rightarrow> game \<Rightarrow> error + game option" where
  "run [] g = (if running g then Inr None else Inr (Some g))"
| "run (i # ins) g =
     (if running g
      then (case tick i g of
              Inl err \<Rightarrow> Inl err
            | Inr None \<Rightarrow> Inr None
            | Inr (Some g') \<Rightarrow> run ins g')
      else Inr (Some g))"

text \<open>The states the loop passes through at the head of a round.\<close>

inductive reachable :: "game \<Rightarrow> bool" where
  start: "reachable game_init"
| round: "reachable g \<Longrightarrow> running g \<Longrightarrow> tick i g = Inr (Some g') \<Longrightarrow> reachable g'"

subsection \<open>Auxiliary predicate\<close>

text \<open>Two players whose rectangles agree in all but the horizontal position.\<close>

definition same_row :: "player \<Rightarrow> player \<Rightarrow> bool" where
  "same_row p q = (rect_y (p_rect q) = rect_y (p_rect p) \<and> rect_h (p_rect q) = rect_h (p_rect p)
                   \<and> rect_w (p_rect q) = rect_w (p_rect p))"

subsection \<open>Concrete states\<close>

text \<open>The initial state with the board cleared.\<close>

definition wave_cleared :: game where
  "wave_cleared = game_init\<lparr>enemies := []\<rparr>"

text \<open>The state after \<^verbatim>\<open>_update\<close> on the cleared board.\<close>

definition wave_cleared_after :: game where
  "wave_cleared_after =
     wave_cleared
       \<lparr>level := 2,
        enemies := map (\<lambda>(a, b). \<lparr>e_rect = Rect a b 40 30, e_speed = 2\<rparr>)
         [(172, 50), (232, 50), (292, 50), (352, 50), (412, 50), (472, 50), (532, 50), (592, 50),
          (172, 100), (232, 100), (292, 100), (352, 100), (412, 100), (472, 100), (532, 100), (592, 100),
          (172, 150), (232, 150), (292, 150), (352, 150), (412, 150), (472, 150), (532, 150), (592, 150),
          (172, 200), (232, 200), (292, 200), (352, 200), (412, 200), (472, 200), (532, 200), (592, 200)]\<rparr>"

text \<open>A tick without events or keys.\<close>

definition idle :: tick_input where
  "idle = \<lparr>events = [], pressed = [], over_events = []\<rparr>"

text \<open>
  A bullet whose rectangle overlaps the enemies \<open>e_a\<close> and \<open>e_b\<close>, not \<open>e_far\<close>, before and
  after one round of movement.
\<close>

definition e_far :: enemy where "e_far = \<lparr>e_rect = Rect 300 50 40 30, e_speed = 1\<rparr>"
definition e_a :: enemy where "e_a = \<lparr>e_rect = Rect 90 50 40 30, e_speed = 1\<rparr>"
definition e_b :: enemy where "e_b = \<lparr>e_rect = Rect 95 55 40 30, e_speed = 1\<rparr>"
definition b0 :: bullet where "b0 = \<lparr>b_rect = Rect 100 60 6 12, b_speed = 8, active = True\<rparr>"

definition hit_state :: game where
  "hit_state = game_init\<lparr>bullets := [b0], enemies := [e_far, e_a, e_b]\<rparr>"

text \<open>The state after the tick without input on \<open>hit_state\<close>.\<close>

definition hit_state_after :: game where
  "hit_state_after =
     hit_state\<lparr>bullets := [\<lparr>b_rect = Rect 100 52 6 12, b_speed = 8, active = False\<rparr>],
               enemies := [\<lparr>e_rect = Rect 301 50 40 30, e_speed = 1\<rparr>,
                           \<lparr>e_rect = Rect 96 55 40 30, e_speed = 1\<rparr>],
               score := 10\<rparr>"

text \<open>The last life, with one enemy below the danger line.\<close>

definition danger_state :: game where
  "danger_state =
     game_init\<lparr>player := Player_init\<lparr>lives := 1\<rparr>,
               enemies := [\<lparr>e_rect = Rect 100 500 40 30, e_speed = 1\<rparr>],
               score := 70\<rparr>"

text \<open>A tick whose game-over screen is acknowledged at its second poll.\<close>

definition acknowledged :: tick_input where
  "acknowledged = \<lparr>events = [], pressed = [], over_events = [[OTHER_EVENT], [KEYDOWN K_RETURN]]\<rparr>"

text \<open>The state after the tick \<open>acknowledged\<close> on \<open>danger_state\<close>.\<close>

definition danger_state_after :: game where
  "danger_state_after =
     danger_state\<lparr>player := Player_init\<lparr>lives := 0\<rparr>,
                  enemies := [\<lparr>e_rect = Rect 101 500 40 30, e_speed = 1\<rparr>],
                  running := False\<rparr>"

text \<open>
  Two threats at once: an enemy overlapping the player and another at the danger line.
\<close>

definition double_threat_state :: game where
  "double_threat_state =
     game_init\<lparr>enemies := [\<lparr>e_rect = Rect 380 535 40 30, e_speed = 1\<rparr>,
                           \<lparr>e_rect = Rect 100 500 40 30, e_speed = 1\<rparr>]\<rparr>"

definition double_threat_after :: game where
  "double_threat_after = game_init\<lparr>player := Player_init\<lparr>lives := 2, cooldown := 30\<rparr>\<rparr>"

text \<open>An enemy overlapping a player placed high on the field, far from the danger line.\<close>

definition high_player_state :: game where
  "high_player_state =
     game_init\<lparr>player := Player_init\<lparr>p_rect := Rect 375 100 50 30\<rparr>,
               enemies := [\<lparr>e_rect = Rect 380 90 40 30, e_speed = 1\<rparr>]\<rparr>"

definition high_player_after :: game where
  "high_player_after =
     game_init\<lparr>player := Player_init\<lparr>p_rect := Rect 375 100 50 30, lives := 2, cooldown := 30\<rparr>\<rparr>"

text \<open>A formation heading right whose rightmost enemy has passed the right margin.\<close>

definition edge_state :: game where
  "edge_state =
     game_init\<lparr>enemies := [\<lparr>e_rect = Rect 755 50 40 30, e_speed = 3\<rparr>,
                           \<lparr>e_rect = Rect 400 50 40 30, e_speed = 3\<rparr>]\<rparr>"

text \<open>The state after the formation advance on \<open>edge_state\<close>.\<close>

definition edge_state_after :: game where
  "edge_state_after =
     edge_state\<lparr>enemies := [\<lparr>e_rect = Rect 752 70 40 30, e_speed = 4\<rparr>,
                            \<lparr>e_rect = Rect 397 70 40 30, e_speed = 4\<rparr>],
                enemy_direction := - 1\<rparr>"

text \<open>A formation at the right margin with a speed beyond the range of binary64.\<close>

definition overflow_state :: game where
  "overflow_state =
     game_init\<lparr>enemies := [\<lparr>e_rect = Rect 755 50 40 30, e_speed = 10 ^ 400\<rparr>]\<rparr>"

text \<open>A formation heading left whose leftmost enemy has passed the left margin.\<close>

definition left_edge_state :: game where
  "left_edge_state =
     game_init\<lparr>enemies := [\<lparr>e_rect = Rect 8 50 40 30, e_speed = 3\<rparr>], enemy_direction := - 1\<rparr>"

section \<open>Properties\<close>

lemmas consts_defs =
  WIDTH_def HEIGHT_def FPS_def PLAYER_SPEED_def BULLET_SPEED_def ENEMY_ROWS_def
  ENEMY_COLS_def ENEMY_HORIZONTAL_PADDING_def ENEMY_VERTICAL_PADDING_def
  ENEMY_HORIZONTAL_SPACING_def ENEMY_VERTICAL_SPACING_def ENEMY_VERTICAL_STEP_def
  ENEMY_SPEED_def PLAYER_LIVES_def ENEMY_WIDTH_def ENEMY_HEIGHT_def

subsection \<open>Firing\<close>

lemma cooldown_iter:
  "0 \<le> cooldown p \<Longrightarrow> cooldown ((Player_update ^^ k) p) = max 0 (cooldown p - int k)"
  by (induction k) (auto simp: Player_update_def)

text \<open>
  Claim C8. \<^verbatim>\<open>Player.shoot()\<close> returns a bullet exactly when \<open>cooldown = 0\<close>. On
  success the cooldown becomes \<open>FPS div 4 = 15\<close>, nothing else of the player changes, and
  the bullet is the 6 by 12 rectangle centred on the player's \<open>centerx\<close> whose top is 10
  above the player's top. On refusal nothing is returned and the player is unchanged. A
  second shot right after a successful one is refused, and after \<open>k\<close> further calls of
  \<^verbatim>\<open>Player.update\<close> a shot succeeds exactly when \<open>k\<close> is at least 15.
\<close>

theorem shoot_cooldown_gate:
  "(fst (Player_shoot p) \<noteq> None) = (cooldown p = 0)
   \<and> (cooldown p = 0 \<longrightarrow>
        (\<exists>b. fst (Player_shoot p) = Some b
            \<and> b_rect b = Rect (centerx (p_rect p) - 3) (top_edge (p_rect p) - 10) 6 12
            \<and> centerx (b_rect b) = centerx (p_rect p)
            \<and> top_edge (b_rect b) < top_edge (p_rect p)
            \<and> b_speed b = BULLET_SPEED \<and> active b)
        \<and> snd (Player_shoot p) = p\<lparr>cooldown := FPS div 4\<rparr>
        \<and> FPS div 4 = 15
        \<and> Player_shoot (snd (Player_shoot p)) = (None, snd (Player_shoot p))
        \<and> (\<forall>k. (fst (Player_shoot ((Player_update ^^ k) (snd (Player_shoot p)))) \<noteq> None)
                = (15 \<le> k)))
   \<and> (cooldown p \<noteq> 0 \<longrightarrow> Player_shoot p = (None, p))"
proof -
  have gate: "(fst (Player_shoot p) \<noteq> None) = (cooldown p = 0)"
    by (simp add: Player_shoot_def)
  have refuse: "cooldown p \<noteq> 0 \<longrightarrow> Player_shoot p = (None, p)"
    by (simp add: Player_shoot_def)
  have later: "(fst (Player_shoot ((Player_update ^^ k) (p\<lparr>cooldown := FPS div 4\<rparr>))) \<noteq> None)
                = (15 \<le> k)" for k
  proof -
    have "cooldown ((Player_update ^^ k) (p\<lparr>cooldown := FPS div 4\<rparr>)) = max 0 (15 - int k)"
      using cooldown_iter [of "p\<lparr>cooldown := FPS div 4\<rparr>" k] by (simp add: FPS_def)
    then show ?thesis by (auto simp: Player_shoot_def)
  qed
  have fire: "cooldown p = 0 \<longrightarrow>
        (\<exists>b. fst (Player_shoot p) = Some b
            \<and> b_rect b = Rect (centerx (p_rect p) - 3) (top_edge (p_rect p) - 10) 6 12
            \<and> centerx (b_rect b) = centerx (p_rect p)
            \<and> top_edge (b_rect b) < top_edge (p_rect p)
            \<and> b_speed b = BULLET_SPEED \<and> active b)
        \<and> snd (Player_shoot p) = p\<lparr>cooldown := FPS div 4\<rparr>
        \<and> FPS div 4 = 15
        \<and> Player_shoot (snd (Player_shoot p)) = (None, snd (Player_shoot p))"
    by (simp add: Player_shoot_def Rect_def centerx_def top_edge_def FPS_def)
  have again: "cooldown p = 0 \<longrightarrow>
        (\<forall>k. (fst (Player_shoot ((Player_update ^^ k) (snd (Player_shoot p)))) \<noteq> None)
                = (15 \<le> k))"
  proof (intro impI allI)
    fix k
    assume "cooldown p = 0"
    with fire have eq: "snd (Player_shoot p) = p\<lparr>cooldown := FPS div 4\<rparr>" by blast
    show "(fst (Player_shoot ((Player_update ^^ k) (snd (Player_shoot p)))) \<noteq> None)
                = (15 \<le> k)"
      unfolding eq by (rule later)
  qed
  from gate refuse fire again show ?thesis by blast
qed

theorem shoot_cooldown_gate_witness:
  "cooldown Player_init = 0
   \<and> fst (Player_shoot Player_init)
       = Some \<lparr>b_rect = Rect 397 530 6 12, b_speed = 8, active = True\<rparr>
   \<and> cooldown (snd (Player_shoot Player_init)) = 15
   \<and> cooldown (Player_init\<lparr>cooldown := 7\<rparr>) \<noteq> 0
   \<and> Player_shoot (Player_init\<lparr>cooldown := 7\<rparr>) = (None, Player_init\<lparr>cooldown := 7\<rparr>)"
  using shoot_cooldown_gate [of Player_init] shoot_cooldown_gate [of "Player_init\<lparr>cooldown := 7\<rparr>"]
  by (simp add: Player_init_def Player_shoot_def Rect_def centerx_def top_edge_def consts_defs)

subsection \<open>Wave spawn\<close>

lemma upto_0_3: "[0..3] = [0, 1, 2, 3::int]"
  by code_simp

lemma upto_0_7: "[0..7] = [0, 1, 2, 3, 4, 5, 6, 7::int]"
  by code_simp

lemma upt_0_32: "[0..<32] = [0, 1, 2, 3, 4, 5, 6, 7, 8, 9, 10, 11, 12, 13, 14, 15, 16, 17, 18, 19,
     20, 21, 22, 23, 24, 25, 26, 27, 28, 29, 30, 31::nat]"
  by code_simp

text \<open>
  Claim C7. Whatever the level and the previous enemies, \<^verbatim>\<open>_spawn_enemies\<close> replaces the
  enemy list by \<open>ENEMY_ROWS * ENEMY_COLS = 32\<close> enemies, the one of index \<open>i\<close> (row
  \<open>i div ENEMY_COLS\<close>, column \<open>i mod ENEMY_COLS\<close>) at the grid position with the fixed
  spacings, the left edge of the grid at
  \<open>max ENEMY_HORIZONTAL_PADDING ((WIDTH - total_width) div 2)\<close>, which leaves the same
  margin on the right (the grid is centred), every speed \<open>ENEMY_SPEED + (level - 1)\<close>;
  the direction becomes \<open>1\<close> and no other field changes.
\<close>

theorem spawn_enemies_grid:
  "enemies (spawn_enemies g)
     = map (\<lambda>i. \<lparr>e_rect = Rect (max ENEMY_HORIZONTAL_PADDING
                                    ((WIDTH - ((ENEMY_COLS - 1) * ENEMY_HORIZONTAL_SPACING + ENEMY_WIDTH)) div 2)
                                   + (int i mod ENEMY_COLS) * ENEMY_HORIZONTAL_SPACING)
                              (ENEMY_VERTICAL_PADDING + (int i div ENEMY_COLS) * ENEMY_VERTICAL_SPACING)
                              ENEMY_WIDTH ENEMY_HEIGHT,
                  e_speed = ENEMY_SPEED + (level g - 1)\<rparr>)
           [0..<nat (ENEMY_ROWS * ENEMY_COLS)]
   \<and> length (enemies (spawn_enemies g)) = 32
   \<and> enemy_direction (spawn_enemies g) = 1
   \<and> spawn_enemies (g\<lparr>enemies := es, enemy_direction := d\<rparr>) = spawn_enemies g
   \<and> min_default (map (\<lambda>e. left (e_rect e)) (enemies (spawn_enemies g))) 0
       = max ENEMY_HORIZONTAL_PADDING
           ((WIDTH - ((ENEMY_COLS - 1) * ENEMY_HORIZONTAL_SPACING + ENEMY_WIDTH)) div 2)
   \<and> WIDTH - max_default (map (\<lambda>e. right (e_rect e)) (enemies (spawn_enemies g))) WIDTH
       = min_default (map (\<lambda>e. left (e_rect e)) (enemies (spawn_enemies g))) 0
   \<and> player (spawn_enemies g) = player g \<and> bullets (spawn_enemies g) = bullets g
   \<and> level (spawn_enemies g) = level g \<and> score (spawn_enemies g) = score g
   \<and> running (spawn_enemies g) = running g"
  by (simp add: spawn_enemies_def spawn_row_def consts_defs Rect_def left_def right_def
        upto_0_3 upto_0_7 upt_0_32 Let_def)

subsection \<open>The speed after a drop\<close>

lemma bit_length_bounds:
  "0 < n \<Longrightarrow> 2 ^ (bit_length n - 1) \<le> n \<and> n < 2 ^ bit_length n"
proof (induction n rule: bit_length.induct)
  case (1 n)
  show ?case
  proof (cases "n div 2 = 0")
    case True
    with "1.prems" have "n = 1" by presburger
    then show ?thesis by (simp add: bit_length.simps)
  next
    case False
    then have pos: "0 < n div 2" by simp
    from "1.prems" have n0: "n \<noteq> 0" by simp
    from "1.IH" [OF n0 pos]
    have ih: "2 ^ (bit_length (n div 2) - 1) \<le> n div 2" "n div 2 < 2 ^ bit_length (n div 2)"
      by simp_all
    have bl: "bit_length n = Suc (bit_length (n div 2))"
      using n0 by (simp add: bit_length.simps [of n])
    have blpos: "0 < bit_length (n div 2)"
      using pos by (simp add: bit_length.simps [of "n div 2"])
    then obtain m where m: "bit_length (n div 2) = Suc m" by (cases "bit_length (n div 2)") auto
    from ih m have "2 * 2 ^ m \<le> 2 * (n div 2)" by simp
    also have "\<dots> \<le> n" by simp
    finally have lo: "2 ^ (bit_length n - 1) \<le> n" by (simp add: bl m)
    from ih(2) have "n div 2 + 1 \<le> 2 ^ bit_length (n div 2)" by simp
    then have "2 * (n div 2) + 2 \<le> 2 * 2 ^ bit_length (n div 2)" by simp
    moreover have "n < 2 * (n div 2) + 2" by presburger
    ultimately have hi: "n < 2 ^ bit_length n" by (simp add: bl)
    from lo hi show ?thesis by simp
  qed
qed



lemma round53_ceil:
  "round53 n * 2 ^ 52 \<le> n * (2 ^ 52 + 1)"
proof (cases "bit_length n \<le> 53")
  case True
  then show ?thesis by (simp add: round53_def)
next
  case False
  define sh where "sh = bit_length n - 53"
  define q where "q = n div 2 ^ sh"
  define d :: nat where "d = 2 ^ sh"
  from False have bl: "bit_length n = sh + 53" by (simp add: sh_def)
  have npos: "0 < n"
  proof (rule ccontr)
    assume "\<not> 0 < n"
    then have "bit_length n = 0" by (simp add: bit_length.simps)
    with False show False by simp
  qed
  from bit_length_bounds [OF npos] bl have "2 ^ (sh + 52) \<le> n" by (simp add: add.commute)
  then have big: "2 ^ 52 * d \<le> n" by (simp add: power_add mult.commute d_def)
  have "n = q * d + n mod d" unfolding q_def d_def by (rule div_mult_mod_eq [symmetric])
  then have "q * d \<le> n" by linarith
  have rq: "round53 n \<le> (q + 1) * d"
    using False by (simp add: round53_def Let_def sh_def [symmetric] q_def [symmetric] d_def)
  then have "round53 n * 2 ^ 52 \<le> (q + 1) * d * 2 ^ 52" by (rule mult_le_mono1)
  also have "\<dots> = q * d * 2 ^ 52 + 2 ^ 52 * d" by (simp add: algebra_simps)
  also have "\<dots> \<le> n * 2 ^ 52 + n"
    using \<open>q * d \<le> n\<close> big by (simp add: add_mono mult_le_mono1)
  also have "\<dots> = n * (2 ^ 52 + 1)" by (simp add: algebra_simps)
  finally show ?thesis .
qed

lemma round53_ge_pow:
  assumes "2 ^ k \<le> n"
  shows "2 ^ k \<le> round53 n"
proof (cases "bit_length n \<le> 53")
  case True
  with assms show ?thesis by (simp add: round53_def)
next
  case False
  define sh where "sh = bit_length n - 53"
  define q where "q = n div 2 ^ sh"
  from False have bl: "bit_length n = sh + 53" by (simp add: sh_def)
  have "(0::nat) < 2 ^ k" by simp
  with assms have npos: "0 < n" by linarith
  from bit_length_bounds [OF npos] bl have lo: "2 ^ (sh + 52) \<le> n" and hi: "n < 2 ^ (sh + 53)"
    by (simp_all add: add.commute)
  from assms hi have "(2::nat) ^ k < 2 ^ (sh + 53)" by (rule le_less_trans)
  then have "k < sh + 53" by simp
  then have "k \<le> sh + 52" by simp
  then have kle: "(2::nat) ^ k \<le> 2 ^ (sh + 52)" by simp
  from lo have "2 ^ 52 * 2 ^ sh \<le> n" by (simp add: power_add mult.commute)
  then have "(2 ^ 52 * 2 ^ sh) div 2 ^ sh \<le> n div 2 ^ sh" by (rule div_le_mono)
  then have qlo: "2 ^ 52 \<le> q" by (simp add: q_def)
  have rq: "q * 2 ^ sh \<le> round53 n"
    using False by (simp add: round53_def Let_def sh_def [symmetric] q_def [symmetric])
  have "(2::nat) ^ (sh + 52) = 2 ^ 52 * 2 ^ sh" by (simp add: power_add mult.commute)
  also have "\<dots> \<le> q * 2 ^ sh" using qlo by (rule mult_le_mono1)
  finally show ?thesis using kle rq by linarith
qed


lemma drop_speed_defined:
  assumes "\<bar>s\<bar> < 2 ^ 1023"
  shows "\<exists>r. drop_speed s = Inr r"
proof -
  define n where "n = nat \<bar>s\<bar>"
  define f where "f = round53 n"
  define p where "p = round53 (f * MULT_NUM)"
  let ?c = "(2::nat) ^ 52 + 1"
  from assms have n: "n < 2 ^ 1023" by (simp add: n_def nat_less_iff)
  have "f * 2 ^ 52 \<le> n * ?c" unfolding f_def by (rule round53_ceil)
  also have "\<dots> \<le> 2 ^ 1023 * ?c" using n by (simp add: mult_le_mono1)
  also have "\<dots> < 2 ^ 1024 * 2 ^ 52" by simp
  finally have f: "f < 2 ^ 1024" by simp
  have fc: "f * 2 ^ 52 \<le> 2 ^ 1023 * ?c"
    using \<open>f * 2 ^ 52 \<le> n * ?c\<close> \<open>n * ?c \<le> 2 ^ 1023 * ?c\<close> by (rule le_trans)
  have "p * 2 ^ 52 \<le> f * MULT_NUM * ?c" unfolding p_def by (rule round53_ceil)
  then have "p * 2 ^ 52 * 2 ^ 52 \<le> f * MULT_NUM * ?c * 2 ^ 52" by (rule mult_le_mono1)
  also have "\<dots> = f * 2 ^ 52 * (MULT_NUM * ?c)" by (simp add: algebra_simps)
  also have "\<dots> \<le> 2 ^ 1023 * ?c * (MULT_NUM * ?c)" using fc by (rule mult_le_mono1)
  also have "\<dots> < 2 ^ (1024 + MULT_EXP) * 2 ^ 52 * 2 ^ 52" by (simp add: MULT_NUM_def MULT_EXP_def)
  finally have p: "p < 2 ^ (1024 + MULT_EXP)" by simp
  from f p show ?thesis
    by (simp add: drop_speed_def Let_def n_def [symmetric] f_def [symmetric] p_def [symmetric])
qed

lemma drop_speed_overflow:
  assumes "2 ^ 1024 \<le> \<bar>s\<bar>"
  shows "drop_speed s = Inl OverflowError"
proof -
  from assms have "2 ^ 1024 \<le> nat \<bar>s\<bar>" by (simp add: le_nat_iff)
  from round53_ge_pow [OF this] show ?thesis by (simp add: drop_speed_def Let_def)
qed

lemma drop_speed_3: "drop_speed 3 = Inr 4"
  by (simp add: drop_speed_def round53_def bit_length.simps MULT_NUM_def MULT_EXP_def Let_def)


lemma spawn_speeds:
  "map e_speed (enemies (spawn_enemies g)) = replicate 32 (ENEMY_SPEED + level g - 1)"
  by (simp add: spawn_enemies_def spawn_row_def consts_defs upto_0_3 upto_0_7 Let_def
        eval_nat_numeral)

subsection \<open>The formation advance never sees an empty list\<close>

lemma spawn_nonempty: "enemies (spawn_enemies g) \<noteq> []"
  by (simp add: spawn_enemies_def spawn_row_def consts_defs upto_0_3 upto_0_7 Let_def)

lemma min_default_Min: "xs \<noteq> [] \<Longrightarrow> min_default xs d = Min (set xs)"
proof (cases xs)
  case Nil
  assume "xs \<noteq> []"
  with Nil show ?thesis by simp
next
  case (Cons v vs)
  then show ?thesis using Min.set_eq_fold [of v vs] by simp
qed

lemma max_default_Max: "xs \<noteq> [] \<Longrightarrow> max_default xs d = Max (set xs)"
proof (cases xs)
  case Nil
  assume "xs \<noteq> []"
  with Nil show ?thesis by simp
next
  case (Cons v vs)
  then show ?thesis using Max.set_eq_fold [of v vs] by simp
qed

lemma respawn_nonempty: "enemies (respawn_if_empty g) \<noteq> []"
  by (simp add: respawn_if_empty_def spawn_nonempty)

text \<open>
  Claim C10. In every state, the enemy list that the formation advance of \<^verbatim>\<open>_update\<close>
  works on, the one left by the wave-clear check, is not empty; so the leftmost and the
  rightmost edge are the minimum and the maximum over the enemies, whatever the default
  values of \<^verbatim>\<open>min\<close> and \<^verbatim>\<open>max\<close> are: the defaults are never taken.
\<close>

theorem advance_on_nonempty:
  "update evss g
     = (case advance_enemies (respawn_if_empty (update_bullets g)) of
          Inl err \<Rightarrow> Inl err
        | Inr a \<Rightarrow> Inr (handle_collisions evss a))
   \<and> enemies (respawn_if_empty (update_bullets g)) \<noteq> []
   \<and> min_default (map (\<lambda>e. left (e_rect e)) (enemies (respawn_if_empty (update_bullets g)))) d
       = Min (set (map (\<lambda>e. left (e_rect e)) (enemies (respawn_if_empty (update_bullets g)))))
   \<and> max_default (map (\<lambda>e. right (e_rect e)) (enemies (respawn_if_empty (update_bullets g)))) d'
       = Max (set (map (\<lambda>e. right (e_rect e)) (enemies (respawn_if_empty (update_bullets g)))))"
  using respawn_nonempty [of "update_bullets g"]
  by (simp add: update_def min_default_Min max_default_Max)

theorem advance_on_nonempty_witness:
  "length (enemies (respawn_if_empty (update_bullets wave_cleared))) = 32
   \<and> min_default (map (\<lambda>e. left (e_rect e)) (enemies (respawn_if_empty (update_bullets wave_cleared)))) 0 = 170
   \<and> max_default (map (\<lambda>e. right (e_rect e)) (enemies (respawn_if_empty (update_bullets wave_cleared)))) WIDTH = 630"
  using advance_on_nonempty [of "[]" wave_cleared 0 WIDTH]
  by (simp add: respawn_if_empty_def update_bullets_def wave_cleared_def spawn_enemies_def
        spawn_row_def consts_defs Rect_def left_def right_def upto_0_3 upto_0_7 Let_def)

subsection \<open>Losing a life\<close>

lemma centerx_set_centerx: "centerx (set_centerx c r) = c"
  by (simp add: centerx_def set_centerx_def)

text \<open>
  Claim C6. With more than one life left, \<^verbatim>\<open>_lose_life\<close> returns at once, with one life
  less, no bullets, the player's \<open>centerx\<close> at \<open>WIDTH div 2\<close> (its rectangle otherwise
  unchanged), the cooldown at \<open>FPS div 2 = 30\<close>, the enemies those of a fresh wave of the
  same level (all at speed \<open>ENEMY_SPEED + level - 1\<close>, heading right), and the score, the
  level and the running flag as they were.
\<close>

theorem lose_life_keeps_playing:
  assumes "1 < lives (player g)"
  shows "\<exists>g'. lose_life evss g = Some g'
           \<and> lives (player g') = lives (player g) - 1
           \<and> bullets g' = []
           \<and> centerx (p_rect (player g')) = WIDTH div 2
           \<and> p_rect (player g') = (p_rect (player g))\<lparr>rect_x := WIDTH div 2 - rect_w (p_rect (player g)) div 2\<rparr>
           \<and> cooldown (player g') = FPS div 2 \<and> FPS div 2 = 30
           \<and> enemies g' = enemies (spawn_enemies g)
           \<and> map e_speed (enemies g') = replicate 32 (ENEMY_SPEED + level g - 1)
           \<and> enemy_direction g' = 1
           \<and> score g' = score g \<and> level g' = level g \<and> running g' = running g"
  using assms
  by (simp add: lose_life_def Let_def centerx_set_centerx spawn_speeds FPS_def)
     (simp add: spawn_enemies_def set_centerx_def centerx_def Let_def)

theorem lose_life_keeps_playing_witness:
  "1 < lives (player game_init)
   \<and> (\<exists>g'. lose_life [] game_init = Some g'
          \<and> lives (player g') = 2 \<and> bullets g' = [] \<and> rect_x (p_rect (player g')) = 375
          \<and> cooldown (player g') = 30 \<and> enemies g' = enemies game_init
          \<and> score g' = 0 \<and> level g' = 1 \<and> running g')"
proof -
  have l: "lives (player game_init) = 3" "score game_init = 0" "level game_init = 1"
    "running game_init" "rect_w (p_rect (player game_init)) = 50"
    "enemies (spawn_enemies game_init) = enemies game_init"
    by (simp_all add: game_init_def spawn_enemies_def Player_init_def Rect_def
          PLAYER_LIVES_def Let_def)
  from lose_life_keeps_playing [of game_init "[]"] l show ?thesis
    by (auto simp: FPS_def WIDTH_def)
qed

subsection \<open>The game-over screen changes nothing but the running flag\<close>

lemma message_events_frame:
  "\<exists>r. snd (message_events evs (w, g)) = g\<lparr>running := r\<rparr>"
proof (induction evs arbitrary: w g)
  case Nil
  have "g = g\<lparr>running := running g\<rparr>" by simp
  then show ?case by (metis message_events.simps(1) snd_conv)
next
  case (Cons ev evs)
  show ?case
  proof (cases "ev = QUIT")
    case True
    from Cons.IH [of False "g\<lparr>running := False\<rparr>"] True show ?thesis by auto
  next
    case False
    then show ?thesis using Cons.IH [of False g] Cons.IH [of w g] by auto
  qed
qed

lemma message_events_waiting:
  "fst (message_events evs (w, g)) = fst (message_events evs (w, g0))"
  by (induction evs arbitrary: w g g0) auto

lemma display_message_frame:
  "display_message evss g = Some g' \<Longrightarrow> \<exists>r. g' = g\<lparr>running := r\<rparr>"
proof (induction evss arbitrary: g)
  case Nil
  then show ?case by simp
next
  case (Cons evs rest)
  obtain w g1 where m: "message_events evs (True, g) = (w, g1)" by (cases "message_events evs (True, g)")
  from message_events_frame [of evs True g] m obtain r where g1: "g1 = g\<lparr>running := r\<rparr>" by auto
  show ?case
  proof (cases w)
    case True
    with Cons.prems m have "display_message rest g1 = Some g'" by simp
    from Cons.IH [OF this] obtain r' where "g' = g1\<lparr>running := r'\<rparr>" by blast
    with g1 show ?thesis by auto
  next
    case False
    with Cons.prems m have "g' = g1" by simp
    with g1 show ?thesis by blast
  qed
qed

lemma display_message_returns:
  "(display_message evss g \<noteq> None) = list_ex (\<lambda>evs. \<not> fst (message_events evs (True, g))) evss"
proof (induction evss arbitrary: g)
  case Nil
  then show ?case by simp
next
  case (Cons evs rest)
  obtain w g1 where m: "message_events evs (True, g) = (w, g1)" by (cases "message_events evs (True, g)")
  have indep: "list_ex (\<lambda>evs. \<not> fst (message_events evs (True, g1))) rest
             = list_ex (\<lambda>evs. \<not> fst (message_events evs (True, g))) rest"
    using message_events_waiting [of _ True g1 g] by simp
  show ?case using m Cons.IH [of g1] indep by (cases w) auto
qed

lemma game_over_frame:
  "game_over evss g = Some g' \<Longrightarrow> g' = g\<lparr>running := False\<rparr>"
  by (auto simp: game_over_def split: option.splits dest: display_message_frame)

lemma game_over_returns:
  "(game_over evss g \<noteq> None) = list_ex (\<lambda>evs. \<not> fst (message_events evs (True, g))) evss"
proof -
  have "(game_over evss g \<noteq> None) = (display_message evss g \<noteq> None)"
    by (cases "display_message evss g") (simp_all add: game_over_def)
  then show ?thesis by (simp only: display_message_returns)
qed

lemma lose_life_last:
  "lives (player g) \<le> 1 \<Longrightarrow> lose_life evss g = Some g' \<Longrightarrow>
     g' = g\<lparr>player := (player g)\<lparr>lives := lives (player g) - 1\<rparr>, running := False\<rparr>"
  by (auto simp: lose_life_def Let_def dest: game_over_frame)

lemma lose_life_more:
  "1 < lives (player g) \<Longrightarrow>
     lose_life evss g =
       Some (spawn_enemies
          (g\<lparr>player := (player g)\<lparr>lives := lives (player g) - 1,
                                    p_rect := set_centerx (WIDTH div 2) (p_rect (player g)),
                                    cooldown := FPS div 2\<rparr>,
             bullets := []\<rparr>))"
  by (simp add: lose_life_def Let_def)

lemma lose_life_returns:
  "lives (player g) \<le> 1 \<Longrightarrow>
     (lose_life evss g \<noteq> None) = list_ex (\<lambda>evs. \<not> fst (message_events evs (True, g))) evss"
proof -
  assume l: "lives (player g) \<le> 1"
  let ?g1 = "g\<lparr>player := (player g)\<lparr>lives := lives (player g) - 1\<rparr>\<rparr>"
  from l have "lose_life evss g = game_over evss ?g1" by (simp add: lose_life_def Let_def)
  moreover have "(\<lambda>evs. \<not> fst (message_events evs (True, ?g1)))
               = (\<lambda>evs. \<not> fst (message_events evs (True, g)))"
    using message_events_waiting [of _ True ?g1 g] by auto
  ultimately show ?thesis using game_over_returns [of evss ?g1] by simp
qed

lemma spawn_enemies_fields [simp]:
  "player (spawn_enemies g) = player g" "bullets (spawn_enemies g) = bullets g"
  "level (spawn_enemies g) = level g" "score (spawn_enemies g) = score g"
  "running (spawn_enemies g) = running g" "enemy_direction (spawn_enemies g) = 1"
  by (simp_all add: spawn_enemies_def Let_def)

lemma lose_life_cases:
  assumes "lose_life evss g = Some g'"
  shows "score g' = score g \<and> level g' = level g
       \<and> lives (player g') = lives (player g) - 1
       \<and> (lives (player g) \<le> 1 \<longrightarrow> \<not> running g')
       \<and> (1 < lives (player g) \<longrightarrow> running g' = running g)"
proof (cases "1 < lives (player g)")
  case True
  with assms lose_life_more [OF True, of evss] show ?thesis by auto
next
  case False
  then have "lives (player g) \<le> 1" by simp
  from lose_life_last [OF this assms] False show ?thesis by simp
qed

lemma enemy_loop_cases:
  "enemy_loop evss es g = Some g' \<Longrightarrow> g' = g \<or> lose_life evss g = Some g'"
  by (induction es) (auto split: if_splits)

subsection \<open>The bullet pass\<close>

lemma first_hit_None:
  "(first_hit r es = None) = list_all (\<lambda>e. \<not> colliderect r (e_rect e)) es"
  by (induction es) auto

lemma first_hit_Some:
  "first_hit r es = Some e \<Longrightarrow>
     \<exists>pre post. es = pre @ e # post
       \<and> list_all (\<lambda>x. \<not> colliderect r (e_rect x)) pre
       \<and> colliderect r (e_rect e)
       \<and> remove1 e es = pre @ post"
proof (induction es)
  case Nil
  then show ?case by simp
next
  case (Cons x es)
  show ?case
  proof (cases "colliderect r (e_rect x)")
    case True
    with Cons.prems have "x = e" by simp
    with True have "x # es = [] @ e # es \<and> list_all (\<lambda>x. \<not> colliderect r (e_rect x)) []
       \<and> colliderect r (e_rect e) \<and> remove1 e (x # es) = [] @ es" by simp
    then show ?thesis by blast
  next
    case False
    with Cons.prems have "first_hit r es = Some e" by simp
    from Cons.IH [OF this] obtain pre post where
      p: "es = pre @ e # post" "list_all (\<lambda>x. \<not> colliderect r (e_rect x)) pre"
         "colliderect r (e_rect e)" "remove1 e es = pre @ post" by blast
    from False p(3) have ne: "x \<noteq> e" by auto
    have "x # es = (x # pre) @ e # post" using p(1) by simp
    moreover have "list_all (\<lambda>x. \<not> colliderect r (e_rect x)) (x # pre)" using False p(2) by simp
    moreover have "remove1 e (x # es) = (x # pre) @ post" using ne p(4) by simp
    ultimately show ?thesis using p(3) by blast
  qed
qed

lemma first_hit_mem: "first_hit r es = Some e \<Longrightarrow> e \<in> set es"
  by (induction es) (auto split: if_splits)

lemma subseq_remove1_self: "subseq (remove1 e es) es"
  by (induction es) auto

lemma bullet_loop_props:
  "bullet_loop bs es sc = (bs', es', sc') \<Longrightarrow>
     subseq es' es \<and> length es' \<le> length es \<and> length es \<le> length es' + length bs
     \<and> sc' = sc + 10 * (int (length es) - int (length es'))
     \<and> map b_rect bs' = map b_rect bs \<and> map b_speed bs' = map b_speed bs
     \<and> (list_all active bs \<longrightarrow> length (filter (\<lambda>b. \<not> active b) bs') + length es' = length es)"
proof (induction bs arbitrary: es sc bs' es' sc')
  case Nil
  then show ?case by auto
next
  case (Cons b bs)
  show ?case
  proof (cases "first_hit (b_rect b) es")
    case None
    obtain bs1 where r: "bullet_loop bs es sc = (bs1, es', sc')" and b: "bs' = b # bs1"
      using Cons.prems None by (auto split: prod.splits)
    from Cons.IH [OF r] b show ?thesis by auto
  next
    case (Some e)
    obtain bs1 where r: "bullet_loop bs (remove1 e es) (sc + 10) = (bs1, es', sc')"
      and b: "bs' = b\<lparr>active := False\<rparr> # bs1"
      using Cons.prems Some by (auto split: prod.splits)
    from first_hit_mem [OF Some] have mem: "e \<in> set es" .
    then have "0 < length es" by (cases es) auto
    with mem have len: "length es = Suc (length (remove1 e es))"
      by (simp add: length_remove1)
    note ih = Cons.IH [OF r]
    from ih have "subseq es' (remove1 e es)" by blast
    then have s: "subseq es' es" using subseq_remove1_self [of e es] by (rule subseq_order.trans)
    from ih len b s show ?thesis by auto
  qed
qed

subsection \<open>What each stage of a round leaves unchanged\<close>

lemma events_loop_frame: "\<exists>r. events_loop evs g = g\<lparr>running := r\<rparr>"
proof (induction evs arbitrary: g)
  case Nil
  have "g = g\<lparr>running := running g\<rparr>" by simp
  then show ?case by (metis events_loop.simps(1))
next
  case (Cons ev evs)
  from Cons.IH [of g] Cons.IH [of "g\<lparr>running := False\<rparr>"] show ?case by auto
qed

lemma Player_move_lives [simp]: "lives (Player_move dx p) = lives p"
  by (simp add: Player_move_def Let_def)

lemma Player_update_lives [simp]: "lives (Player_update p) = lives p"
  by (simp add: Player_update_def)

lemma Player_shoot_lives [simp]: "lives (snd (Player_shoot p)) = lives p"
  by (simp add: Player_shoot_def)

lemma handle_events_fields:
  "score (handle_events i g) = score g \<and> level (handle_events i g) = level g
   \<and> enemies (handle_events i g) = enemies g
   \<and> enemy_direction (handle_events i g) = enemy_direction g
   \<and> lives (player (handle_events i g)) = lives (player g)"
proof -
  obtain r where r: "events_loop (events i) g = g\<lparr>running := r\<rparr>"
    using events_loop_frame by blast
  show ?thesis
    by (simp add: handle_events_def Let_def r Player_shoot_def)
qed

lemma update_bullets_fields [simp]:
  "score (update_bullets g) = score g" "level (update_bullets g) = level g"
  "enemies (update_bullets g) = enemies g" "running (update_bullets g) = running g"
  "enemy_direction (update_bullets g) = enemy_direction g"
  "lives (player (update_bullets g)) = lives (player g)"
  "p_rect (player (update_bullets g)) = p_rect (player g)"
  by (simp_all add: update_bullets_def Player_update_def)

lemma respawn_if_empty_fields [simp]:
  "score (respawn_if_empty g) = score g" "player (respawn_if_empty g) = player g"
  "bullets (respawn_if_empty g) = bullets g" "running (respawn_if_empty g) = running g"
  by (simp_all add: respawn_if_empty_def)

lemma advance_enemies_fields:
  assumes "advance_enemies g = Inr a"
  shows "score a = score g" "player a = player g" "bullets a = bullets g"
    "running a = running g" "level a = level g"
  using assms by (auto simp: advance_enemies_def Let_def split: if_splits sum.splits)

lemma tick_stages:
  assumes "tick i g = Inr (Some g')"
  obtains a where
    "advance_enemies (respawn_if_empty (update_bullets (handle_events i g))) = Inr a"
    "handle_collisions (over_events i) a = Some g'"
  using assms by (auto simp: tick_def update_def split: sum.splits)

lemma handle_collisions_score:
  assumes "handle_collisions evss g = Some g'"
  shows "score g \<le> score g'"
proof -
  obtain bs es sc where bl: "bullet_loop (bullets g) (enemies g) (score g) = (bs, es, sc)"
    by (cases "bullet_loop (bullets g) (enemies g) (score g)") auto
  let ?g1 = "g\<lparr>bullets := bs, enemies := es, score := sc\<rparr>"
  from assms bl have el: "enemy_loop evss es ?g1 = Some g'" by (simp add: handle_collisions_def)
  from bullet_loop_props [OF bl] have "score g \<le> sc" by auto
  moreover from enemy_loop_cases [OF el] have "score g' = sc"
    using lose_life_cases [of evss ?g1 g'] by auto
  ultimately show ?thesis by simp
qed

lemma handle_collisions_lives:
  assumes "handle_collisions evss g = Some g'"
  shows "(lives (player g') = lives (player g) \<and> running g' = running g)
       \<or> (lives (player g') = lives (player g) - 1
           \<and> (lives (player g) \<le> 1 \<longrightarrow> \<not> running g')
           \<and> (1 < lives (player g) \<longrightarrow> running g' = running g))"
proof -
  obtain bs es sc where bl: "bullet_loop (bullets g) (enemies g) (score g) = (bs, es, sc)"
    by (cases "bullet_loop (bullets g) (enemies g) (score g)") auto
  let ?g1 = "g\<lparr>bullets := bs, enemies := es, score := sc\<rparr>"
  from assms bl have el: "enemy_loop evss es ?g1 = Some g'" by (simp add: handle_collisions_def)
  from enemy_loop_cases [OF el] show ?thesis
    using lose_life_cases [of evss ?g1 g'] by auto
qed

lemma tick_score:
  assumes "tick i g = Inr (Some g')"
  shows "score g \<le> score g'"
proof -
  from assms obtain a where
    a: "advance_enemies (respawn_if_empty (update_bullets (handle_events i g))) = Inr a"
    and h: "handle_collisions (over_events i) a = Some g'" by (rule tick_stages)
  from advance_enemies_fields(1) [OF a] handle_events_fields [of i g]
  have "score a = score g" by simp
  with handle_collisions_score [OF h] show ?thesis by simp
qed

lemma tick_lives:
  assumes "tick i g = Inr (Some g')"
  shows "lives (player g') = lives (player g)
       \<or> (lives (player g') = lives (player g) - 1 \<and> (lives (player g) \<le> 1 \<longrightarrow> \<not> running g'))"
proof -
  from assms obtain a where
    a: "advance_enemies (respawn_if_empty (update_bullets (handle_events i g))) = Inr a"
    and h: "handle_collisions (over_events i) a = Some g'" by (rule tick_stages)
  from advance_enemies_fields(2) [OF a] handle_events_fields [of i g]
  have "lives (player a) = lives (player g)" by simp
  with handle_collisions_lives [OF h] show ?thesis by auto
qed

lemma reachable_lives:
  "reachable g \<Longrightarrow> 0 \<le> lives (player g) \<and> (running g \<longrightarrow> 1 \<le> lives (player g))"
proof (induction rule: reachable.induct)
  case start
  show ?case by (simp add: game_init_def Player_init_def PLAYER_LIVES_def)
next
  case (round g i g')
  from round.IH round.hyps(2) have "1 \<le> lives (player g)" by simp
  with tick_lives [OF round.hyps(3)] show ?case by auto
qed

lemma run_stopped: "\<not> running g \<Longrightarrow> run ins g = Inr (Some g)"
  by (cases ins) simp_all

subsection \<open>Concrete rounds\<close>

lemma game_init_fields:
  "player game_init = Player_init" "bullets game_init = []" "level game_init = 1"
  "score game_init = 0" "running game_init" "enemy_direction game_init = 1"
  by (simp_all add: game_init_def)

lemmas eval_defs =
  tick_def update_def handle_events_def update_bullets_def respawn_if_empty_def
  advance_enemies_def handle_collisions_def Bullet_update_def Player_update_def
  move_x_def drop_enemy_def colliderect_def Rect_def left_def right_def bottom_def
  Player_init_def game_init_fields idle_def consts_defs Let_def

lemma tick_hit_state:
  "tick idle hit_state = Inr (Some hit_state_after)"
  by (simp add: hit_state_after_def hit_state_def e_far_def e_a_def e_b_def b0_def eval_defs)

lemma tick_danger_state:
  "tick acknowledged danger_state = Inr (Some danger_state_after)"
  by (simp add: danger_state_after_def danger_state_def acknowledged_def eval_defs
        lose_life_def game_over_def)

subsection \<open>The bullet pass and the score\<close>

text \<open>
  Claim C5. For the bullet at the head of the bullet pass: if no enemy collides with it,
  nothing changes and the pass goes on with the next bullet; otherwise the enemy hit is
  the first colliding one in list order (no enemy before it collides), exactly that enemy
  is removed, the score grows by 10, the bullet is deactivated, and the pass goes on with
  the next bullet on the shortened list. For the whole pass: the enemies left are a
  subsequence of those before, at most one enemy is removed per bullet, the score grows
  by exactly 10 per removed enemy, and, all bullets being active at the start, the
  deactivated bullets are as many as the removed enemies. The score never decreases over
  \<^verbatim>\<open>_handle_collisions\<close> nor over a tick.
\<close>

theorem bullet_pass_first_match:
  "(first_hit (b_rect b) es = None \<longrightarrow>
      list_all (\<lambda>x. \<not> colliderect (b_rect b) (e_rect x)) es
      \<and> bullet_loop (b # bs) es sc
          = (case bullet_loop bs es sc of (bs1, r) \<Rightarrow> (b # bs1, r)))
   \<and> (first_hit (b_rect b) es = Some e \<longrightarrow>
      (\<exists>pre post. es = pre @ e # post
          \<and> list_all (\<lambda>x. \<not> colliderect (b_rect b) (e_rect x)) pre
          \<and> colliderect (b_rect b) (e_rect e)
          \<and> bullet_loop (b # bs) es sc
              = (case bullet_loop bs (pre @ post) (sc + 10) of
                   (bs1, r) \<Rightarrow> (b\<lparr>active := False\<rparr> # bs1, r))))
   \<and> (bullet_loop bs es sc = (bs', es', sc') \<longrightarrow>
      subseq es' es \<and> length es \<le> length es' + length bs
      \<and> sc' = sc + 10 * (int (length es) - int (length es'))
      \<and> (list_all active bs \<longrightarrow>
            length (filter (\<lambda>x. \<not> active x) bs') + length es' = length es))
   \<and> (handle_collisions evss g = Some g1 \<longrightarrow> score g \<le> score g1)
   \<and> (tick i g = Inr (Some g2) \<longrightarrow> score g \<le> score g2)"
proof -
  have none: "first_hit (b_rect b) es = None \<longrightarrow>
      list_all (\<lambda>x. \<not> colliderect (b_rect b) (e_rect x)) es
      \<and> bullet_loop (b # bs) es sc
          = (case bullet_loop bs es sc of (bs1, r) \<Rightarrow> (b # bs1, r))"
    using first_hit_None [of "b_rect b" es] by auto
  have some: "first_hit (b_rect b) es = Some e \<longrightarrow>
      (\<exists>pre post. es = pre @ e # post
          \<and> list_all (\<lambda>x. \<not> colliderect (b_rect b) (e_rect x)) pre
          \<and> colliderect (b_rect b) (e_rect e)
          \<and> bullet_loop (b # bs) es sc
              = (case bullet_loop bs (pre @ post) (sc + 10) of
                   (bs1, r) \<Rightarrow> (b\<lparr>active := False\<rparr> # bs1, r)))"
  proof
    assume h: "first_hit (b_rect b) es = Some e"
    from first_hit_Some [OF h] obtain pre post where
      p: "es = pre @ e # post" "list_all (\<lambda>x. \<not> colliderect (b_rect b) (e_rect x)) pre"
         "colliderect (b_rect b) (e_rect e)" "remove1 e es = pre @ post" by blast
    have "bullet_loop (b # bs) es sc
              = (case bullet_loop bs (pre @ post) (sc + 10) of
                   (bs1, r) \<Rightarrow> (b\<lparr>active := False\<rparr> # bs1, r))"
      using h p(4) by simp
    with p(1-3) show "\<exists>pre post. es = pre @ e # post
          \<and> list_all (\<lambda>x. \<not> colliderect (b_rect b) (e_rect x)) pre
          \<and> colliderect (b_rect b) (e_rect e)
          \<and> bullet_loop (b # bs) es sc
              = (case bullet_loop bs (pre @ post) (sc + 10) of
                   (bs1, r) \<Rightarrow> (b\<lparr>active := False\<rparr> # bs1, r))" by blast
  qed
  have loop: "bullet_loop bs es sc = (bs', es', sc') \<longrightarrow>
      subseq es' es \<and> length es \<le> length es' + length bs
      \<and> sc' = sc + 10 * (int (length es) - int (length es'))
      \<and> (list_all active bs \<longrightarrow>
            length (filter (\<lambda>x. \<not> active x) bs') + length es' = length es)"
    using bullet_loop_props [of bs es sc bs' es' sc'] by blast
  have sc1: "handle_collisions evss g = Some g1 \<longrightarrow> score g \<le> score g1"
    using handle_collisions_score by blast
  have sc2: "tick i g = Inr (Some g2) \<longrightarrow> score g \<le> score g2"
    using tick_score by blast
  from none some loop sc1 sc2 show ?thesis by blast
qed


lemma hit_pass:
  "first_hit (b_rect b0) [e_far, e_a, e_b] = Some e_a"
  "first_hit (b_rect b0) [e_far] = None"
  "bullet_loop [b0, b0] [e_far, e_a, e_b] 0
     = ([b0\<lparr>active := False\<rparr>, b0\<lparr>active := False\<rparr>], [e_far], 20)"
  by (simp_all add: b0_def e_far_def e_a_def e_b_def colliderect_def Rect_def)

theorem bullet_pass_first_match_witness:
  "first_hit (b_rect b0) [e_far, e_a, e_b] = Some e_a
   \<and> colliderect (b_rect b0) (e_rect e_a) \<and> colliderect (b_rect b0) (e_rect e_b)
   \<and> first_hit (b_rect b0) [e_far] = None
   \<and> bullet_loop [b0, b0] [e_far, e_a, e_b] 0
       = ([b0\<lparr>active := False\<rparr>, b0\<lparr>active := False\<rparr>], [e_far], 20)
   \<and> list_all active [b0, b0]
   \<and> subseq [e_far] [e_far, e_a, e_b]
   \<and> tick idle hit_state = Inr (Some hit_state_after)
   \<and> score hit_state = 0 \<and> score hit_state_after = 10
   \<and> score hit_state \<le> score hit_state_after"
proof -
  note t = bullet_pass_first_match
    [where b = b0 and es = "[e_far, e_a, e_b]" and bs = "[b0, b0]" and sc = 0 and e = e_a
       and bs' = "[b0\<lparr>active := False\<rparr>, b0\<lparr>active := False\<rparr>]"
       and es' = "[e_far]" and sc' = 20 and evss = "[]" and g = hit_state
       and ?g1.0 = "the (handle_collisions [] hit_state)" and i = idle
       and ?g2.0 = hit_state_after]
  from t hit_pass(3) have sub: "subseq [e_far] [e_far, e_a, e_b]" by blast
  from t tick_hit_state have mono: "score hit_state \<le> score hit_state_after" by blast
  have col: "colliderect (b_rect b0) (e_rect e_a)" "colliderect (b_rect b0) (e_rect e_b)"
    by (simp_all add: b0_def e_a_def e_b_def colliderect_def Rect_def)
  have sc: "score hit_state = 0" "score hit_state_after = 10"
    by (simp_all add: hit_state_after_def hit_state_def game_init_fields)
  have act: "list_all active [b0, b0]" by (simp add: b0_def)
  from hit_pass(1) col hit_pass(2,3) act sub tick_hit_state sc mono show ?thesis
    by (intro conjI)
qed

subsection \<open>Lives and game over\<close>

lemma enemy_loop_threat:
  "list_ex (\<lambda>e. colliderect (e_rect e) (p_rect (player g)) \<or> HEIGHT - 80 \<le> bottom (e_rect e)) es
     \<Longrightarrow> enemy_loop evss es g = lose_life evss g"
  by (induction es) auto

lemma enemy_loop_clear:
  "list_all (\<lambda>e. \<not> colliderect (e_rect e) (p_rect (player g)) \<and> \<not> HEIGHT - 80 \<le> bottom (e_rect e)) es
     \<Longrightarrow> enemy_loop evss es g = Some g"
  by (induction es) auto

lemma handle_collisions_exact:
  assumes "handle_collisions evss g = Some g'"
  shows "lives (player g')
       = (if list_ex (\<lambda>e. colliderect (e_rect e) (p_rect (player g))
                          \<or> HEIGHT - 80 \<le> bottom (e_rect e))
               (fst (snd (bullet_loop (bullets g) (enemies g) (score g))))
          then lives (player g) - 1 else lives (player g))"
proof -
  obtain bs es sc where bl: "bullet_loop (bullets g) (enemies g) (score g) = (bs, es, sc)"
    by (cases "bullet_loop (bullets g) (enemies g) (score g)") auto
  let ?g1 = "g\<lparr>bullets := bs, enemies := es, score := sc\<rparr>"
  let ?threat = "\<lambda>e. colliderect (e_rect e) (p_rect (player ?g1))
                      \<or> HEIGHT - 80 \<le> bottom (e_rect e)"
  from assms bl have el: "enemy_loop evss es ?g1 = Some g'" by (simp add: handle_collisions_def)
  show ?thesis
  proof (cases "list_ex ?threat es")
    case True
    from enemy_loop_threat [OF True, of evss] el have "lose_life evss ?g1 = Some g'" by simp
    from lose_life_cases [OF this] True bl show ?thesis by simp
  next
    case False
    then have "list_all (\<lambda>e. \<not> colliderect (e_rect e) (p_rect (player ?g1))
                            \<and> \<not> HEIGHT - 80 \<le> bottom (e_rect e)) es"
      by (simp add: list_all_iff list_ex_iff)
    from enemy_loop_clear [OF this, of evss] el have "g' = ?g1" by simp
    with False bl show ?thesis by simp
  qed
qed

text \<open>
  Claim C4. Over a tick the lives never grow and fall by at most one. The enemy pass calls
  \<^verbatim>\<open>_lose_life\<close> exactly once when some enemy overlaps the player or has reached the
  danger line, however many do, and not at all otherwise; \<^verbatim>\<open>_lose_life\<close> takes exactly
  one life; so \<^verbatim>\<open>_handle_collisions\<close> and \<^verbatim>\<open>_update\<close> end with exactly one life less
  when an enemy that survived the bullet pass is such a threat, and with the lives
  unchanged otherwise. In every reachable state the lives are not negative, and at least 1
  while the game is running; so they are not negative after any tick of the loop. With
  one life left, \<^verbatim>\<open>_lose_life\<close>, when it returns, leaves 0 lives, \<^verbatim>\<open>running\<close> false and
  every other field, the score among them, unchanged, and the main loop then returns that
  state without a further tick; it returns exactly when one of the polls of the game-over
  screen brings an acknowledging event. A tick that starts with one life and ends with
  another number of lives ends with 0 lives and \<^verbatim>\<open>running\<close> false.
\<close>

theorem lives_and_game_over:
  "(tick i g = Inr (Some g1) \<longrightarrow>
      lives (player g1) \<le> lives (player g) \<and> lives (player g) - 1 \<le> lives (player g1))
   \<and> (list_ex (\<lambda>e. colliderect (e_rect e) (p_rect (player g))
                    \<or> HEIGHT - 80 \<le> bottom (e_rect e)) es \<longrightarrow>
        enemy_loop evss es g = lose_life evss g)
   \<and> (list_all (\<lambda>e. \<not> colliderect (e_rect e) (p_rect (player g))
                     \<and> \<not> HEIGHT - 80 \<le> bottom (e_rect e)) es \<longrightarrow>
        enemy_loop evss es g = Some g)
   \<and> (lose_life evss g = Some g2 \<longrightarrow> lives (player g2) = lives (player g) - 1)
   \<and> (handle_collisions evss g = Some g3 \<longrightarrow>
        lives (player g3)
          = (if list_ex (\<lambda>e. colliderect (e_rect e) (p_rect (player g))
                             \<or> HEIGHT - 80 \<le> bottom (e_rect e))
                  (fst (snd (bullet_loop (bullets g) (enemies g) (score g))))
             then lives (player g) - 1 else lives (player g)))
   \<and> (update evss g = Inr (Some g4) \<longrightarrow>
        (\<exists>a. advance_enemies (respawn_if_empty (update_bullets g)) = Inr a
           \<and> lives (player g4)
               = (if list_ex (\<lambda>e. colliderect (e_rect e) (p_rect (player g))
                                  \<or> HEIGHT - 80 \<le> bottom (e_rect e))
                       (fst (snd (bullet_loop (bullets a) (enemies a) (score a))))
                  then lives (player g) - 1 else lives (player g))))
   \<and> (reachable g \<longrightarrow> 0 \<le> lives (player g) \<and> (running g \<longrightarrow> 1 \<le> lives (player g)))
   \<and> (reachable g \<and> running g \<and> tick i g = Inr (Some g1) \<longrightarrow> 0 \<le> lives (player g1))
   \<and> (lives (player g) = 1 \<and> lose_life evss g = Some g2 \<longrightarrow>
        g2 = g\<lparr>player := (player g)\<lparr>lives := 0\<rparr>, running := False\<rparr>
        \<and> \<not> running g2 \<and> score g2 = score g \<and> (\<forall>ins. run ins g2 = Inr (Some g2)))
   \<and> (lives (player g) = 1 \<longrightarrow>
        (lose_life evss g \<noteq> None)
          = list_ex (\<lambda>evs. \<not> fst (message_events evs (True, g))) evss)
   \<and> (lives (player g) = 1 \<and> tick i g = Inr (Some g1) \<and> lives (player g1) \<noteq> 1 \<longrightarrow>
        lives (player g1) = 0 \<and> \<not> running g1 \<and> (\<forall>ins. run ins g1 = Inr (Some g1)))"
proof -
  have a: "tick i g = Inr (Some g1) \<longrightarrow>
      lives (player g1) \<le> lives (player g) \<and> lives (player g) - 1 \<le> lives (player g1)"
    using tick_lives [of i g g1] by auto
  have t1: "list_ex (\<lambda>e. colliderect (e_rect e) (p_rect (player g))
                    \<or> HEIGHT - 80 \<le> bottom (e_rect e)) es \<longrightarrow>
        enemy_loop evss es g = lose_life evss g"
    using enemy_loop_threat by blast
  have t2: "list_all (\<lambda>e. \<not> colliderect (e_rect e) (p_rect (player g))
                     \<and> \<not> HEIGHT - 80 \<le> bottom (e_rect e)) es \<longrightarrow>
        enemy_loop evss es g = Some g"
    using enemy_loop_clear by blast
  have t3: "lose_life evss g = Some g2 \<longrightarrow> lives (player g2) = lives (player g) - 1"
    using lose_life_cases [of evss g g2] by blast
  have t4: "handle_collisions evss g = Some g3 \<longrightarrow>
        lives (player g3)
          = (if list_ex (\<lambda>e. colliderect (e_rect e) (p_rect (player g))
                             \<or> HEIGHT - 80 \<le> bottom (e_rect e))
                  (fst (snd (bullet_loop (bullets g) (enemies g) (score g))))
             then lives (player g) - 1 else lives (player g))"
    using handle_collisions_exact by blast
  have t5: "update evss g = Inr (Some g4) \<longrightarrow>
        (\<exists>a. advance_enemies (respawn_if_empty (update_bullets g)) = Inr a
           \<and> lives (player g4)
               = (if list_ex (\<lambda>e. colliderect (e_rect e) (p_rect (player g))
                                  \<or> HEIGHT - 80 \<le> bottom (e_rect e))
                       (fst (snd (bullet_loop (bullets a) (enemies a) (score a))))
                  then lives (player g) - 1 else lives (player g)))"
  proof
    assume u: "update evss g = Inr (Some g4)"
    then obtain a where a: "advance_enemies (respawn_if_empty (update_bullets g)) = Inr a"
      and h: "handle_collisions evss a = Some g4"
      by (auto simp: update_def split: sum.splits)
    from advance_enemies_fields(2) [OF a] have "player a = player (update_bullets g)" by simp
    then have p: "lives (player a) = lives (player g)" "p_rect (player a) = p_rect (player g)"
      by simp_all
    from handle_collisions_exact [OF h] p a
    show "\<exists>a. advance_enemies (respawn_if_empty (update_bullets g)) = Inr a
           \<and> lives (player g4)
               = (if list_ex (\<lambda>e. colliderect (e_rect e) (p_rect (player g))
                                  \<or> HEIGHT - 80 \<le> bottom (e_rect e))
                       (fst (snd (bullet_loop (bullets a) (enemies a) (score a))))
                  then lives (player g) - 1 else lives (player g))" by simp
  qed
  have b: "reachable g \<longrightarrow> 0 \<le> lives (player g) \<and> (running g \<longrightarrow> 1 \<le> lives (player g))"
    using reachable_lives by blast
  have c: "reachable g \<and> running g \<and> tick i g = Inr (Some g1) \<longrightarrow> 0 \<le> lives (player g1)"
    using reachable_lives [of g1] reachable.round [of g i g1] by blast
  have d: "lives (player g) = 1 \<and> lose_life evss g = Some g2 \<longrightarrow>
        g2 = g\<lparr>player := (player g)\<lparr>lives := 0\<rparr>, running := False\<rparr>
        \<and> \<not> running g2 \<and> score g2 = score g \<and> (\<forall>ins. run ins g2 = Inr (Some g2))"
  proof
    assume h: "lives (player g) = 1 \<and> lose_life evss g = Some g2"
    then have le: "lives (player g) \<le> 1" and ll: "lose_life evss g = Some g2" by simp_all
    from lose_life_last [OF le ll] h
    have eq: "g2 = g\<lparr>player := (player g)\<lparr>lives := 0\<rparr>, running := False\<rparr>" by simp
    then have nr: "\<not> running g2" and sc: "score g2 = score g" by simp_all
    from nr have "\<forall>ins. run ins g2 = Inr (Some g2)" by (simp add: run_stopped)
    with eq nr sc show "g2 = g\<lparr>player := (player g)\<lparr>lives := 0\<rparr>, running := False\<rparr>
        \<and> \<not> running g2 \<and> score g2 = score g \<and> (\<forall>ins. run ins g2 = Inr (Some g2))" by blast
  qed
  have e: "lives (player g) = 1 \<longrightarrow>
        (lose_life evss g \<noteq> None)
          = list_ex (\<lambda>evs. \<not> fst (message_events evs (True, g))) evss"
    using lose_life_returns [of g evss] by simp
  have f: "lives (player g) = 1 \<and> tick i g = Inr (Some g1) \<and> lives (player g1) \<noteq> 1 \<longrightarrow>
        lives (player g1) = 0 \<and> \<not> running g1 \<and> (\<forall>ins. run ins g1 = Inr (Some g1))"
  proof
    assume h: "lives (player g) = 1 \<and> tick i g = Inr (Some g1) \<and> lives (player g1) \<noteq> 1"
    with tick_lives [of i g g1] have l: "lives (player g1) = 0" and nr: "\<not> running g1" by auto
    from nr have "\<forall>ins. run ins g1 = Inr (Some g1)" by (simp add: run_stopped)
    with l nr show "lives (player g1) = 0 \<and> \<not> running g1 \<and> (\<forall>ins. run ins g1 = Inr (Some g1))"
      by blast
  qed
  from a t1 t2 t3 t4 t5 b c d e f show ?thesis by blast
qed

lemma danger_lose_life:
  "lose_life [[OTHER_EVENT], [KEYDOWN K_RETURN]] danger_state
     = Some (danger_state\<lparr>player := Player_init\<lparr>lives := 0\<rparr>, running := False\<rparr>)"
  "lose_life [[OTHER_EVENT]] danger_state = None"
  by (simp_all add: danger_state_def lose_life_def game_over_def game_init_fields Player_init_def)

lemma tick_double_threat: "tick idle double_threat_state = Inr (Some double_threat_after)"
  by (simp add: double_threat_after_def double_threat_state_def eval_defs lose_life_def
        set_centerx_def)
     (simp add: game_init_def spawn_enemies_def Let_def Player_init_def Rect_def consts_defs)

lemma tick_high_player: "tick idle high_player_state = Inr (Some high_player_after)"
  by (simp add: high_player_after_def high_player_state_def eval_defs lose_life_def
        set_centerx_def)
     (simp add: game_init_def spawn_enemies_def Let_def Player_init_def Rect_def consts_defs)

theorem lives_and_game_over_witness:
  "reachable game_init \<and> running game_init \<and> lives (player game_init) = 3
   \<and> lives (player double_threat_state) = 3
   \<and> colliderect (Rect 380 535 40 30) (p_rect (player double_threat_state))
   \<and> HEIGHT - 80 \<le> bottom (Rect 100 500 40 30)
   \<and> enemy_loop [] (enemies double_threat_state) double_threat_state
       = lose_life [] double_threat_state
   \<and> tick idle double_threat_state = Inr (Some double_threat_after)
   \<and> lives (player double_threat_after) = 2
   \<and> bottom (Rect 381 90 40 30) < HEIGHT - 80
   \<and> tick idle high_player_state = Inr (Some high_player_after)
   \<and> lives (player high_player_state) = 3 \<and> lives (player high_player_after) = 2
   \<and> lives (player danger_state) = 1 \<and> score danger_state = 70
   \<and> tick acknowledged danger_state = Inr (Some danger_state_after)
   \<and> lives (player danger_state_after) = 0
   \<and> \<not> running danger_state_after
   \<and> score danger_state_after = 70
   \<and> run [idle, idle] danger_state_after = Inr (Some danger_state_after)
   \<and> lose_life [[OTHER_EVENT], [KEYDOWN K_RETURN]] danger_state \<noteq> None
   \<and> lose_life [[OTHER_EVENT]] danger_state = None"
proof -
  note t = lives_and_game_over
    [where i = acknowledged and g = danger_state and ?g1.0 = danger_state_after
       and evss = "[[OTHER_EVENT], [KEYDOWN K_RETURN]]"
       and ?g2.0 = "the (lose_life [[OTHER_EVENT], [KEYDOWN K_RETURN]] danger_state)"]
  note t2 = lives_and_game_over
    [where g = double_threat_state and es = "enemies double_threat_state" and evss = "[]"]
  have l: "lives (player danger_state) = 1" "score danger_state = 70"
    by (simp_all add: danger_state_def)
  have l1: "lives (player danger_state_after) \<noteq> 1" by (simp add: danger_state_after_def)
  from t l tick_danger_state l1
  have r: "lives (player danger_state_after) = 0" "\<not> running danger_state_after"
    "run [idle, idle] danger_state_after = Inr (Some danger_state_after)"
    by blast+
  have i: "reachable game_init" by (rule reachable.start)
  have i2: "running game_init" "lives (player game_init) = 3"
    by (simp_all add: game_init_fields Player_init_def PLAYER_LIVES_def)
  have sc: "score danger_state_after = 70"
    by (simp add: danger_state_after_def danger_state_def)
  have d: "lives (player double_threat_state) = 3"
    "colliderect (Rect 380 535 40 30) (p_rect (player double_threat_state))"
    "HEIGHT - 80 \<le> bottom (Rect 100 500 40 30)"
    "bottom (Rect 381 90 40 30) < HEIGHT - 80"
    "lives (player double_threat_after) = 2"
    "lives (player high_player_state) = 3" "lives (player high_player_after) = 2"
    by (simp_all add: double_threat_state_def double_threat_after_def high_player_state_def
          high_player_after_def game_init_fields Player_init_def colliderect_def bottom_def
          Rect_def consts_defs)
  have ex: "list_ex (\<lambda>e. colliderect (e_rect e) (p_rect (player double_threat_state))
                        \<or> HEIGHT - 80 \<le> bottom (e_rect e)) (enemies double_threat_state)"
    by (simp add: double_threat_state_def game_init_fields Player_init_def colliderect_def
          bottom_def Rect_def consts_defs)
  from t2 ex have el: "enemy_loop [] (enemies double_threat_state) double_threat_state
       = lose_life [] double_threat_state" by blast
  have ll: "lose_life [[OTHER_EVENT], [KEYDOWN K_RETURN]] danger_state \<noteq> None"
    by (simp add: danger_lose_life)
  from i i2 d(1,2,3) el tick_double_threat d(5,4) tick_high_player d(6,7) l tick_danger_state
    r(1,2) sc r(3) ll danger_lose_life(2)
  show ?thesis by (intro conjI)
qed

subsection \<open>The bullet that hit\<close>

lemma Bullet_update_active: "active (Bullet_update b) \<Longrightarrow> active b"
  by (simp add: Bullet_update_def Let_def split: if_splits)

lemma filter_active_update:
  "length (filter active (map Bullet_update bs)) \<le> length (filter active bs)"
proof (induction bs)
  case Nil
  show ?case by simp
next
  case (Cons b bs)
  then show ?case using Bullet_update_active [of b] by auto
qed

lemma handle_collisions_bullets:
  assumes "handle_collisions evss g = Some g1"
  shows "bullets g1 = fst (bullet_loop (bullets g) (enemies g) (score g)) \<or> bullets g1 = []"
proof -
  obtain bs es sc where bl: "bullet_loop (bullets g) (enemies g) (score g) = (bs, es, sc)"
    by (cases "bullet_loop (bullets g) (enemies g) (score g)") auto
  let ?g1 = "g\<lparr>bullets := bs, enemies := es, score := sc\<rparr>"
  from assms bl have el: "enemy_loop evss es ?g1 = Some g1" by (simp add: handle_collisions_def)
  from enemy_loop_cases [OF el] show ?thesis
  proof
    assume "g1 = ?g1"
    with bl show ?thesis by simp
  next
    assume ll: "lose_life evss ?g1 = Some g1"
    show ?thesis
    proof (cases "1 < lives (player ?g1)")
      case True
      from lose_life_more [OF True, of evss] ll have "bullets g1 = []" by auto
      then show ?thesis by simp
    next
      case False
      then have "lives (player ?g1) \<le> 1" by simp
      from lose_life_last [OF this ll] bl show ?thesis by simp
    qed
  qed
qed

text \<open>
  Claim C3, as amended. A bullet that collides with an enemy in the bullet pass of tick N
  is deactivated and stays in the bullet list: the pass returns the bullets in the same
  number, with the same rectangles and speeds, only the flags of the hit ones cleared
  (all bullets being active at the start, the inactive ones at the end are as many as the
  removed enemies). \<^verbatim>\<open>_handle_collisions\<close> ends with that list, unless a life loss has
  emptied it. The deactivated bullet leaves the list in the filter at the start of the
  next \<^verbatim>\<open>_update\<close>, which keeps active bullets only and never reactivates one.
\<close>

theorem hit_bullet_stays_until_filter:
  "(bullet_loop bs es sc = (bs', es', sc') \<longrightarrow>
      length bs' = length bs \<and> map b_rect bs' = map b_rect bs \<and> map b_speed bs' = map b_speed bs
      \<and> (list_all active bs \<longrightarrow>
            length (filter (\<lambda>x. \<not> active x) bs') + length es' = length es))
   \<and> (first_hit (b_rect b) es = Some e \<longrightarrow>
        fst (bullet_loop (b # bs) es sc)
          = b\<lparr>active := False\<rparr> # fst (bullet_loop bs (remove1 e es) (sc + 10)))
   \<and> (handle_collisions evss g = Some g1 \<longrightarrow>
        bullets g1 = fst (bullet_loop (bullets g) (enemies g) (score g)) \<or> bullets g1 = [])
   \<and> list_all active (bullets (update_bullets g))
   \<and> length (bullets (update_bullets g)) \<le> length (filter active (bullets g))"
proof -
  have a: "bullet_loop bs es sc = (bs', es', sc') \<longrightarrow>
      length bs' = length bs \<and> map b_rect bs' = map b_rect bs \<and> map b_speed bs' = map b_speed bs
      \<and> (list_all active bs \<longrightarrow>
            length (filter (\<lambda>x. \<not> active x) bs') + length es' = length es)"
  proof
    assume h: "bullet_loop bs es sc = (bs', es', sc')"
    from bullet_loop_props [OF h] have p: "map b_rect bs' = map b_rect bs"
      "map b_speed bs' = map b_speed bs"
      "list_all active bs \<longrightarrow> length (filter (\<lambda>x. \<not> active x) bs') + length es' = length es"
      by blast+
    from p(1) have "length (map b_rect bs') = length (map b_rect bs)" by simp
    then have "length bs' = length bs" by simp
    with p show "length bs' = length bs \<and> map b_rect bs' = map b_rect bs
      \<and> map b_speed bs' = map b_speed bs
      \<and> (list_all active bs \<longrightarrow>
            length (filter (\<lambda>x. \<not> active x) bs') + length es' = length es)" by blast
  qed
  have b: "first_hit (b_rect b) es = Some e \<longrightarrow>
        fst (bullet_loop (b # bs) es sc)
          = b\<lparr>active := False\<rparr> # fst (bullet_loop bs (remove1 e es) (sc + 10))"
    by (simp split: prod.splits)
  have c: "handle_collisions evss g = Some g1 \<longrightarrow>
        bullets g1 = fst (bullet_loop (bullets g) (enemies g) (score g)) \<or> bullets g1 = []"
    using handle_collisions_bullets by blast
  have d: "list_all active (bullets (update_bullets g))"
    by (simp add: update_bullets_def list_all_iff)
  have e: "length (bullets (update_bullets g)) \<le> length (filter active (bullets g))"
    using filter_active_update [of "bullets g"] by (simp add: update_bullets_def)
  from a b c d e show ?thesis by blast
qed

theorem hit_bullet_stays_until_filter_witness:
  "bullet_loop [b0, b0] [e_far, e_a, e_b] 0
       = ([b0\<lparr>active := False\<rparr>, b0\<lparr>active := False\<rparr>], [e_far], 20)
   \<and> list_all active [b0, b0]
   \<and> first_hit (b_rect b0) [e_far, e_a, e_b] = Some e_a
   \<and> tick idle hit_state = Inr (Some hit_state_after)
   \<and> bullets hit_state_after
       = [\<lparr>b_rect = Rect 100 52 6 12, b_speed = 8, active = False\<rparr>]
   \<and> bullets (update_bullets hit_state_after) = []"
proof -
  note t = hit_bullet_stays_until_filter
    [where bs = "[b0, b0]" and es = "[e_far, e_a, e_b]" and sc = 0
       and bs' = "[b0\<lparr>active := False\<rparr>, b0\<lparr>active := False\<rparr>]"
       and es' = "[e_far]" and sc' = 20 and b = b0 and e = e_a and evss = "[]"
       and g = hit_state_after
       and ?g1.0 = "the (handle_collisions [] hit_state_after)"]
  have bl: "bullets hit_state_after
       = [\<lparr>b_rect = Rect 100 52 6 12, b_speed = 8, active = False\<rparr>]"
    by (simp add: hit_state_after_def)
  from t have "length (bullets (update_bullets hit_state_after))
      \<le> length (filter active (bullets hit_state_after))" by blast
  with bl have gone: "bullets (update_bullets hit_state_after) = []" by simp
  have act: "list_all active [b0, b0]" by (simp add: b0_def)
  from hit_pass(3) act hit_pass(1) tick_hit_state bl gone show ?thesis by (intro conjI)
qed

text \<open>
  Claim C3 as stated fails: after the tick in which the bullet of \<open>hit_state\<close> hits
  \<open>e_a\<close>, the bullet is still in the list, inactive.
\<close>

theorem hit_bullet_removed_counterexample:
  "tick idle hit_state = Inr (Some hit_state_after)
   \<and> bullets hit_state = [b0]
   \<and> colliderect (b_rect (Bullet_update b0)) (e_rect e_a)
   \<and> length (enemies hit_state) = 3
   \<and> length (enemies hit_state_after) = 2
   \<and> score hit_state_after = score hit_state + 10
   \<and> bullets hit_state_after
       = [\<lparr>b_rect = Rect 100 52 6 12, b_speed = 8, active = False\<rparr>]
   \<and> bullets hit_state_after \<noteq> []"
  by (simp add: tick_hit_state)
     (simp add: hit_state_after_def hit_state_def game_init_fields b0_def e_a_def
        Bullet_update_def bottom_def colliderect_def Rect_def Let_def)

subsection \<open>The drop tick\<close>

lemma error_is_overflow: "(err::error) = OverflowError"
  by (cases err) simp

lemma not_overflow_Inr: "(x \<noteq> Inl OverflowError) = (\<exists>v. x = Inr v)"
  by (cases x) (simp_all add: error_is_overflow)

lemma drop_loop_defined:
  "list_all (\<lambda>e. drop_speed (e_speed e) \<noteq> Inl OverflowError) es \<Longrightarrow>
     drop_loop es
       = Inr (map (\<lambda>e. e\<lparr>e_rect := (e_rect e)\<lparr>rect_y := rect_y (e_rect e) + ENEMY_VERTICAL_STEP\<rparr>,
                          e_speed := projr (drop_speed (e_speed e))\<rparr>) es)"
proof (induction es)
  case Nil
  show ?case by simp
next
  case (Cons e es)
  from Cons.prems obtain v where v: "drop_speed (e_speed e) = Inr v"
    by (auto simp: not_overflow_Inr)
  from Cons.prems have "list_all (\<lambda>e. drop_speed (e_speed e) \<noteq> Inl OverflowError) es" by simp
  from Cons.IH [OF this] v show ?case by (simp add: drop_enemy_def)
qed

lemma drop_loop_raises:
  "list_ex (\<lambda>e. drop_speed (e_speed e) = Inl OverflowError) es \<Longrightarrow>
     drop_loop es = Inl OverflowError"
proof (induction es)
  case Nil
  then show ?case by simp
next
  case (Cons e es)
  show ?case
  proof (cases "drop_speed (e_speed e)")
    case (Inl err)
    then show ?thesis by (simp add: drop_enemy_def error_is_overflow)
  next
    case (Inr v)
    with Cons.prems have "list_ex (\<lambda>e. drop_speed (e_speed e) = Inl OverflowError) es" by simp
    from Cons.IH [OF this] Inr show ?thesis by (simp add: drop_enemy_def)
  qed
qed


lemma move_x_speed [simp]: "e_speed (move_x k e) = e_speed e"
  by (simp add: move_x_def)

text \<open>
  Claim C2, as amended. On a drop tick (the rightmost right edge at or beyond
  \<open>WIDTH - 10\<close> while heading right, or the leftmost left edge at or below 10 while
  heading left) the direction is flipped first, and the horizontal displacement of the same
  tick already uses the flipped direction, with the speed from before the drop: every
  enemy moves by its speed away from the margin, moves down by \<open>ENEMY_VERTICAL_STEP\<close>, and
  its speed becomes \<^verbatim>\<open>math.ceil(speed * 1.1)\<close>; this is what the advance returns when
  no speed leaves the range of binary64, as is the case when every speed is below
  \<open>2 ^ 1023\<close> in absolute value, and otherwise the advance raises \<^verbatim>\<open>OverflowError\<close>. On
  any other tick every enemy moves by its speed times the unchanged direction, and nothing
  else changes.
\<close>

theorem drop_tick_moves_in_new_direction:
  "(WIDTH - 10 \<le> max_default (map (\<lambda>e. right (e_rect e)) (enemies g)) WIDTH
      \<and> 0 < enemy_direction g \<longrightarrow>
      (list_all (\<lambda>e. drop_speed (e_speed e) \<noteq> Inl OverflowError) (enemies g) \<longrightarrow>
         advance_enemies g =
           Inr (g\<lparr>enemies := map (\<lambda>e. \<lparr>e_rect = (e_rect e)\<lparr>rect_x := rect_x (e_rect e) - e_speed e,
                                                          rect_y := rect_y (e_rect e) + ENEMY_VERTICAL_STEP\<rparr>,
                                         e_speed = projr (drop_speed (e_speed e))\<rparr>) (enemies g),
                  enemy_direction := - 1\<rparr>))
      \<and> (list_ex (\<lambda>e. drop_speed (e_speed e) = Inl OverflowError) (enemies g) \<longrightarrow>
         advance_enemies g = Inl OverflowError))
   \<and> (min_default (map (\<lambda>e. left (e_rect e)) (enemies g)) 0 \<le> 10
      \<and> enemy_direction g < 0 \<longrightarrow>
      (list_all (\<lambda>e. drop_speed (e_speed e) \<noteq> Inl OverflowError) (enemies g) \<longrightarrow>
         advance_enemies g =
           Inr (g\<lparr>enemies := map (\<lambda>e. \<lparr>e_rect = (e_rect e)\<lparr>rect_x := rect_x (e_rect e) + e_speed e,
                                                          rect_y := rect_y (e_rect e) + ENEMY_VERTICAL_STEP\<rparr>,
                                         e_speed = projr (drop_speed (e_speed e))\<rparr>) (enemies g),
                  enemy_direction := 1\<rparr>))
      \<and> (list_ex (\<lambda>e. drop_speed (e_speed e) = Inl OverflowError) (enemies g) \<longrightarrow>
         advance_enemies g = Inl OverflowError))
   \<and> (\<not> (min_default (map (\<lambda>e. left (e_rect e)) (enemies g)) 0 \<le> 10 \<and> enemy_direction g < 0)
      \<and> \<not> (WIDTH - 10 \<le> max_default (map (\<lambda>e. right (e_rect e)) (enemies g)) WIDTH
            \<and> 0 < enemy_direction g) \<longrightarrow>
      advance_enemies g =
        Inr (g\<lparr>enemies := map (\<lambda>e. e\<lparr>e_rect := (e_rect e)\<lparr>rect_x := rect_x (e_rect e)
                                                         + e_speed e * enemy_direction g\<rparr>\<rparr>)
                          (enemies g)\<rparr>))
   \<and> (list_all (\<lambda>e. \<bar>e_speed e\<bar> < 2 ^ 1023) (enemies g) \<longrightarrow>
        list_all (\<lambda>e. drop_speed (e_speed e) \<noteq> Inl OverflowError) (enemies g))"
proof -
  let ?ok = "list_all (\<lambda>e. drop_speed (e_speed e) \<noteq> Inl OverflowError) (enemies g)"
  let ?bad = "list_ex (\<lambda>e. drop_speed (e_speed e) = Inl OverflowError) (enemies g)"
  have ok: "drop_loop (map (move_x k) (enemies g))
      = Inr (map (\<lambda>e. \<lparr>e_rect = (e_rect e)\<lparr>rect_x := rect_x (e_rect e) + e_speed e * k,
                                            rect_y := rect_y (e_rect e) + ENEMY_VERTICAL_STEP\<rparr>,
                         e_speed = projr (drop_speed (e_speed e))\<rparr>) (enemies g))"
    if ?ok for k
  proof -
    from that have "list_all (\<lambda>e. drop_speed (e_speed e) \<noteq> Inl OverflowError)
        (map (move_x k) (enemies g))" by (simp add: list_all_iff)
    from drop_loop_defined [OF this] show ?thesis by (simp add: comp_def move_x_def)
  qed
  have bad: "drop_loop (map (move_x k) (enemies g)) = Inl OverflowError" if ?bad for k
  proof -
    from that have "list_ex (\<lambda>e. drop_speed (e_speed e) = Inl OverflowError)
        (map (move_x k) (enemies g))" by (simp add: list_ex_iff)
    from drop_loop_raises [OF this] show ?thesis .
  qed
  have r: "WIDTH - 10 \<le> max_default (map (\<lambda>e. right (e_rect e)) (enemies g)) WIDTH
      \<and> 0 < enemy_direction g \<longrightarrow>
      (?ok \<longrightarrow>
         advance_enemies g =
           Inr (g\<lparr>enemies := map (\<lambda>e. \<lparr>e_rect = (e_rect e)\<lparr>rect_x := rect_x (e_rect e) - e_speed e,
                                                          rect_y := rect_y (e_rect e) + ENEMY_VERTICAL_STEP\<rparr>,
                                         e_speed = projr (drop_speed (e_speed e))\<rparr>) (enemies g),
                  enemy_direction := - 1\<rparr>))
      \<and> (?bad \<longrightarrow> advance_enemies g = Inl OverflowError)"
    using ok [of "- 1"] bad [of "- 1"] by (simp add: advance_enemies_def Let_def)
  have l: "min_default (map (\<lambda>e. left (e_rect e)) (enemies g)) 0 \<le> 10
      \<and> enemy_direction g < 0 \<longrightarrow>
      (?ok \<longrightarrow>
         advance_enemies g =
           Inr (g\<lparr>enemies := map (\<lambda>e. \<lparr>e_rect = (e_rect e)\<lparr>rect_x := rect_x (e_rect e) + e_speed e,
                                                          rect_y := rect_y (e_rect e) + ENEMY_VERTICAL_STEP\<rparr>,
                                         e_speed = projr (drop_speed (e_speed e))\<rparr>) (enemies g),
                  enemy_direction := 1\<rparr>))
      \<and> (?bad \<longrightarrow> advance_enemies g = Inl OverflowError)"
    using ok [of 1] bad [of 1] by (simp add: advance_enemies_def Let_def)
  have n: "\<not> (min_default (map (\<lambda>e. left (e_rect e)) (enemies g)) 0 \<le> 10 \<and> enemy_direction g < 0)
      \<and> \<not> (WIDTH - 10 \<le> max_default (map (\<lambda>e. right (e_rect e)) (enemies g)) WIDTH
            \<and> 0 < enemy_direction g) \<longrightarrow>
      advance_enemies g =
        Inr (g\<lparr>enemies := map (\<lambda>e. e\<lparr>e_rect := (e_rect e)\<lparr>rect_x := rect_x (e_rect e)
                                                         + e_speed e * enemy_direction g\<rparr>\<rparr>)
                          (enemies g)\<rparr>)"
    by (auto simp: advance_enemies_def Let_def move_x_def)
  have d1: "drop_speed s \<noteq> Inl OverflowError" if "\<bar>s\<bar> < 2 ^ 1023" for s
  proof -
    from drop_speed_defined [OF that] obtain r where "drop_speed s = Inr r" ..
    then show ?thesis by simp
  qed
  have d: "list_all (\<lambda>e. \<bar>e_speed e\<bar> < 2 ^ 1023) (enemies g) \<longrightarrow> ?ok"
    unfolding list_all_iff using d1 by blast
  from r l n d show ?thesis by blast
qed


lemma edge_tick: "tick idle edge_state = Inr (Some edge_state_after)"
  by (simp add: edge_state_after_def edge_state_def eval_defs drop_speed_3)


theorem drop_tick_moves_in_new_direction_witness:
  "WIDTH - 10 \<le> max_default [right (Rect 755 50 40 30), right (Rect 400 50 40 30)] WIDTH
   \<and> 0 < enemy_direction edge_state
   \<and> drop_speed 3 = Inr 4
   \<and> advance_enemies edge_state =
       Inr (edge_state\<lparr>enemies := [\<lparr>e_rect = Rect 752 70 40 30, e_speed = 4\<rparr>,
                                   \<lparr>e_rect = Rect 397 70 40 30, e_speed = 4\<rparr>],
                       enemy_direction := - 1\<rparr>)
   \<and> min_default [left (Rect 8 50 40 30)] 0 \<le> 10
   \<and> enemy_direction left_edge_state < 0
   \<and> advance_enemies left_edge_state =
       Inr (left_edge_state\<lparr>enemies := [\<lparr>e_rect = Rect 11 70 40 30, e_speed = 4\<rparr>],
                            enemy_direction := 1\<rparr>)
   \<and> advance_enemies edge_state_after =
       Inr (edge_state\<lparr>enemies := [\<lparr>e_rect = Rect 748 70 40 30, e_speed = 4\<rparr>,
                                   \<lparr>e_rect = Rect 393 70 40 30, e_speed = 4\<rparr>],
                       enemy_direction := - 1\<rparr>)
   \<and> drop_speed (10 ^ 400) = Inl OverflowError
   \<and> advance_enemies overflow_state = Inl OverflowError"
proof -
  have h1: "WIDTH - 10 \<le> max_default (map (\<lambda>e. right (e_rect e)) (enemies edge_state)) WIDTH
      \<and> 0 < enemy_direction edge_state"
    by (simp add: edge_state_def game_init_fields right_def Rect_def WIDTH_def)
  have ok1: "list_all (\<lambda>e. drop_speed (e_speed e) \<noteq> Inl OverflowError) (enemies edge_state)"
    by (simp add: edge_state_def drop_speed_3)
  have h2: "min_default (map (\<lambda>e. left (e_rect e)) (enemies left_edge_state)) 0 \<le> 10
      \<and> enemy_direction left_edge_state < 0"
    by (simp add: left_edge_state_def left_def Rect_def)
  have ok2: "list_all (\<lambda>e. drop_speed (e_speed e) \<noteq> Inl OverflowError) (enemies left_edge_state)"
    by (simp add: left_edge_state_def drop_speed_3)
  let ?g = "edge_state_after"
  have h3: "\<not> (min_default (map (\<lambda>e. left (e_rect e)) (enemies ?g)) 0 \<le> 10 \<and> enemy_direction ?g < 0)
      \<and> \<not> (WIDTH - 10 \<le> max_default (map (\<lambda>e. right (e_rect e)) (enemies ?g)) WIDTH
            \<and> 0 < enemy_direction ?g)"
    by (simp add: edge_state_after_def left_def Rect_def)
  have h4: "WIDTH - 10 \<le> max_default (map (\<lambda>e. right (e_rect e)) (enemies overflow_state)) WIDTH
      \<and> 0 < enemy_direction overflow_state"
    by (simp add: overflow_state_def game_init_fields right_def Rect_def WIDTH_def)
  have big: "drop_speed (10 ^ 400) = Inl OverflowError" by (rule drop_speed_overflow) simp
  then have bad: "list_ex (\<lambda>e. drop_speed (e_speed e) = Inl OverflowError) (enemies overflow_state)"
    by (simp add: overflow_state_def)
  from drop_tick_moves_in_new_direction [of edge_state] h1 ok1
  have "advance_enemies edge_state =
      Inr (edge_state\<lparr>enemies := map (\<lambda>e. \<lparr>e_rect = (e_rect e)\<lparr>rect_x := rect_x (e_rect e) - e_speed e,
                                                          rect_y := rect_y (e_rect e) + ENEMY_VERTICAL_STEP\<rparr>,
                                         e_speed = projr (drop_speed (e_speed e))\<rparr>) (enemies edge_state),
                  enemy_direction := - 1\<rparr>)" by blast
  then have a: "advance_enemies edge_state =
       Inr (edge_state\<lparr>enemies := [\<lparr>e_rect = Rect 752 70 40 30, e_speed = 4\<rparr>,
                                   \<lparr>e_rect = Rect 397 70 40 30, e_speed = 4\<rparr>],
                       enemy_direction := - 1\<rparr>)"
    by (simp add: edge_state_def drop_speed_3 Rect_def ENEMY_VERTICAL_STEP_def)
  from drop_tick_moves_in_new_direction [of left_edge_state] h2 ok2
  have "advance_enemies left_edge_state =
      Inr (left_edge_state\<lparr>enemies := map (\<lambda>e. \<lparr>e_rect = (e_rect e)\<lparr>rect_x := rect_x (e_rect e) + e_speed e,
                                                          rect_y := rect_y (e_rect e) + ENEMY_VERTICAL_STEP\<rparr>,
                                         e_speed = projr (drop_speed (e_speed e))\<rparr>) (enemies left_edge_state),
                  enemy_direction := 1\<rparr>)" by blast
  then have b: "advance_enemies left_edge_state =
       Inr (left_edge_state\<lparr>enemies := [\<lparr>e_rect = Rect 11 70 40 30, e_speed = 4\<rparr>],
                            enemy_direction := 1\<rparr>)"
    by (simp add: left_edge_state_def drop_speed_3 Rect_def ENEMY_VERTICAL_STEP_def)
  from drop_tick_moves_in_new_direction [of ?g] h3
  have "advance_enemies ?g =
      Inr (?g\<lparr>enemies := map (\<lambda>e. e\<lparr>e_rect := (e_rect e)\<lparr>rect_x := rect_x (e_rect e)
                                                         + e_speed e * enemy_direction ?g\<rparr>\<rparr>)
                          (enemies ?g)\<rparr>)" by blast
  then have c: "advance_enemies edge_state_after =
       Inr (edge_state\<lparr>enemies := [\<lparr>e_rect = Rect 748 70 40 30, e_speed = 4\<rparr>,
                                   \<lparr>e_rect = Rect 393 70 40 30, e_speed = 4\<rparr>],
                       enemy_direction := - 1\<rparr>)"
    by (simp add: edge_state_after_def Rect_def)
  from drop_tick_moves_in_new_direction [of overflow_state] h4 bad
  have o: "advance_enemies overflow_state = Inl OverflowError" by blast
  have d: "WIDTH - 10 \<le> max_default [right (Rect 755 50 40 30), right (Rect 400 50 40 30)] WIDTH"
    "0 < enemy_direction edge_state" "min_default [left (Rect 8 50 40 30)] 0 \<le> 10"
    "enemy_direction left_edge_state < 0"
    by (simp_all add: edge_state_def left_edge_state_def game_init_fields right_def left_def
          Rect_def WIDTH_def)
  from d(1,2) drop_speed_3 a d(3,4) b c big o show ?thesis by (intro conjI)
qed

text \<open>
  Claim C2 as stated fails: in \<open>edge_state\<close> the formation heads right with the rightmost
  right edge at 795; the tick moves the enemy at 755 with speed 3 to 752, not to 758.
\<close>

theorem drop_tick_old_direction_counterexample:
  "enemy_direction edge_state = 1
   \<and> right (e_rect (hd (enemies edge_state))) = 795 \<and> WIDTH - 10 = 790
   \<and> rect_x (e_rect (hd (enemies edge_state))) = 755
   \<and> e_speed (hd (enemies edge_state)) = 3
   \<and> tick idle edge_state = Inr (Some edge_state_after)
   \<and> rect_x (e_rect (hd (enemies edge_state_after))) = 752
   \<and> rect_x (e_rect (hd (enemies edge_state_after))) \<noteq> 755 + 3 * 1
   \<and> rect_y (e_rect (hd (enemies edge_state_after))) = 50 + ENEMY_VERTICAL_STEP
   \<and> e_speed (hd (enemies edge_state_after)) = 4
   \<and> enemy_direction edge_state_after = - 1"
  by (simp add: edge_tick)
     (simp add: edge_state_after_def edge_state_def game_init_fields right_def Rect_def WIDTH_def
        ENEMY_VERTICAL_STEP_def)


subsection \<open>The player's rectangle only moves horizontally\<close>

lemma same_row_refl [simp]: "same_row p p"
  by (simp add: same_row_def)

lemma same_row_trans: "same_row p q \<Longrightarrow> same_row q r \<Longrightarrow> same_row p r"
  by (simp add: same_row_def)

lemma handle_events_row: "same_row (player g) (player (handle_events i g))"
proof -
  obtain r where r: "events_loop (events i) g = g\<lparr>running := r\<rparr>"
    using events_loop_frame by blast
  show ?thesis
    by (simp add: handle_events_def Let_def r Player_shoot_def Player_move_def same_row_def)
qed

lemma lose_life_row:
  assumes "lose_life evss g = Some g'"
  shows "same_row (player g) (player g')"
proof (cases "1 < lives (player g)")
  case True
  from lose_life_more [OF True, of evss] assms show ?thesis
    by (auto simp: same_row_def set_centerx_def)
next
  case False
  then have "lives (player g) \<le> 1" by simp
  from lose_life_last [OF this assms] show ?thesis by (simp add: same_row_def)
qed

lemma handle_collisions_row:
  assumes "handle_collisions evss g = Some g'"
  shows "same_row (player g) (player g')"
proof -
  obtain bs es sc where bl: "bullet_loop (bullets g) (enemies g) (score g) = (bs, es, sc)"
    by (cases "bullet_loop (bullets g) (enemies g) (score g)") auto
  let ?g1 = "g\<lparr>bullets := bs, enemies := es, score := sc\<rparr>"
  from assms bl have el: "enemy_loop evss es ?g1 = Some g'" by (simp add: handle_collisions_def)
  from enemy_loop_cases [OF el] show ?thesis
    using lose_life_row [of evss ?g1 g'] by auto
qed

lemma tick_row:
  assumes "tick i g = Inr (Some g')"
  shows "same_row (player g) (player g')"
proof -
  from assms obtain a where
    a: "advance_enemies (respawn_if_empty (update_bullets (handle_events i g))) = Inr a"
    and h: "handle_collisions (over_events i) a = Some g'" by (rule tick_stages)
  from handle_collisions_row [OF h] have "same_row (player a) (player g')" .
  moreover from advance_enemies_fields(2) [OF a]
  have "same_row (player (handle_events i g)) (player a)"
    by (simp add: same_row_def)
  ultimately show ?thesis using handle_events_row [of g i] by (blast intro: same_row_trans)
qed

lemma reachable_row:
  "reachable g \<Longrightarrow> rect_y (p_rect (player g)) = HEIGHT - 60 \<and> rect_h (p_rect (player g)) = 30"
proof (induction rule: reachable.induct)
  case start
  show ?case by (simp add: game_init_fields Player_init_def Rect_def)
next
  case (round g i g')
  from tick_row [OF round.hyps(3)] round.IH show ?case by (simp add: same_row_def)
qed


subsection \<open>The tick that spawns a wave\<close>

lemma spawn_enemies_level: "level g = level h \<Longrightarrow> enemies (spawn_enemies g) = enemies (spawn_enemies h)"
  by (simp add: spawn_enemies_def Let_def)

lemma spawn_edges:
  "min_default (map (\<lambda>e. left (e_rect e)) (enemies (spawn_enemies g))) 0 = 170"
  "max_default (map (\<lambda>e. right (e_rect e)) (enemies (spawn_enemies g))) WIDTH = 630"
  by (simp_all add: spawn_enemies_def spawn_row_def consts_defs Rect_def left_def right_def
        upto_0_3 upto_0_7 Let_def)

lemma spawn_rows:
  "list_all (\<lambda>e. rect_y (e_rect e) \<le> 200 \<and> rect_h (e_rect e) = 30) (enemies (spawn_enemies g))"
  by (simp add: spawn_enemies_def spawn_row_def consts_defs Rect_def upto_0_3 upto_0_7 Let_def)

lemma advance_fresh:
  "advance_enemies (spawn_enemies g)
     = Inr ((spawn_enemies g)\<lparr>enemies := map (move_x 1) (enemies (spawn_enemies g))\<rparr>)"
proof -
  have l: "\<not> min_default (map (\<lambda>e. left (e_rect e)) (enemies (spawn_enemies g))) 0 \<le> 10"
    by (simp add: spawn_edges)
  have r: "\<not> WIDTH - 10 \<le> max_default (map (\<lambda>e. right (e_rect e)) (enemies (spawn_enemies g))) WIDTH"
    by (simp add: spawn_edges) (simp add: WIDTH_def)
  show ?thesis by (simp add: advance_enemies_def l r Let_def)
qed

lemma high_enemy_clear:
  assumes "rect_y (e_rect e) \<le> 200" "rect_h (e_rect e) = 30" "230 \<le> rect_y pr" "0 \<le> rect_h pr"
  shows "\<not> colliderect (e_rect e) pr \<and> \<not> HEIGHT - 80 \<le> bottom (e_rect e)"
  using assms by (auto simp: colliderect_def bottom_def HEIGHT_def)

lemma subseq_list_all: "subseq xs ys \<Longrightarrow> list_all P ys \<Longrightarrow> list_all P xs"
  by (auto simp: list_all_iff elim: list_emb_set)

text \<open>
  Claim C1, as amended. On a tick at whose start the enemy list is empty, \<^verbatim>\<open>_update\<close>
  increments the level by exactly one and spawns a fresh wave, and the formation advance
  of the same tick is applied to it: it moves every enemy of the fresh wave right by its
  speed, without a drop and with the direction still \<open>1\<close>. In every reachable state
  (there the top of the player's rectangle is at \<open>HEIGHT - 60\<close> and its height is 30),
  and in every state whose player rectangle lies below the formation, the tick returns, no
  life is lost, and the enemies at its end are a subsequence of the fresh wave moved right
  by its speed: every surviving enemy stands its speed to the right of its spawn-grid
  position.
\<close>

theorem spawn_tick_advances:
  "(reachable g \<longrightarrow>
      rect_y (p_rect (player g)) = HEIGHT - 60 \<and> rect_h (p_rect (player g)) = 30)
   \<and> (enemies g = []
        \<and> (reachable g \<or> 230 \<le> rect_y (p_rect (player g)) \<and> 0 \<le> rect_h (p_rect (player g))) \<longrightarrow>
        advance_enemies (respawn_if_empty (update_bullets g))
          = Inr ((respawn_if_empty (update_bullets g))
                  \<lparr>enemies := map (\<lambda>e. e\<lparr>e_rect := (e_rect e)\<lparr>rect_x := rect_x (e_rect e) + e_speed e\<rparr>\<rparr>)
                                  (enemies (spawn_enemies (g\<lparr>level := level g + 1\<rparr>)))\<rparr>)
        \<and> (\<exists>g'. update evss g = Inr (Some g')
              \<and> level g' = level g + 1 \<and> enemy_direction g' = 1
              \<and> lives (player g') = lives (player g)
              \<and> subseq (enemies g')
                   (map (\<lambda>e. e\<lparr>e_rect := (e_rect e)\<lparr>rect_x := rect_x (e_rect e) + e_speed e\<rparr>\<rparr>)
                        (enemies (spawn_enemies (g\<lparr>level := level g + 1\<rparr>))))))"
proof -
  have inv: "reachable g \<longrightarrow>
      rect_y (p_rect (player g)) = HEIGHT - 60 \<and> rect_h (p_rect (player g)) = 30"
    using reachable_row by blast
  have main: "enemies g = []
        \<and> (reachable g \<or> 230 \<le> rect_y (p_rect (player g)) \<and> 0 \<le> rect_h (p_rect (player g))) \<longrightarrow>
        advance_enemies (respawn_if_empty (update_bullets g))
          = Inr ((respawn_if_empty (update_bullets g))
                  \<lparr>enemies := map (\<lambda>e. e\<lparr>e_rect := (e_rect e)\<lparr>rect_x := rect_x (e_rect e) + e_speed e\<rparr>\<rparr>)
                                  (enemies (spawn_enemies (g\<lparr>level := level g + 1\<rparr>)))\<rparr>)
        \<and> (\<exists>g'. update evss g = Inr (Some g')
              \<and> level g' = level g + 1 \<and> enemy_direction g' = 1
              \<and> lives (player g') = lives (player g)
              \<and> subseq (enemies g')
                   (map (\<lambda>e. e\<lparr>e_rect := (e_rect e)\<lparr>rect_x := rect_x (e_rect e) + e_speed e\<rparr>\<rparr>)
                        (enemies (spawn_enemies (g\<lparr>level := level g + 1\<rparr>)))))"
  proof
    assume h0: "enemies g = []
        \<and> (reachable g \<or> 230 \<le> rect_y (p_rect (player g)) \<and> 0 \<le> rect_h (p_rect (player g)))"
    have "230 \<le> rect_y (p_rect (player g)) \<and> 0 \<le> rect_h (p_rect (player g))"
      if "reachable g"
      using reachable_row [OF that] by (simp add: HEIGHT_def)
    with h0 have h: "enemies g = [] \<and> 230 \<le> rect_y (p_rect (player g))
        \<and> 0 \<le> rect_h (p_rect (player g))" by blast
    let ?g0 = "update_bullets g"
    let ?s = "spawn_enemies (?g0\<lparr>level := level g + 1\<rparr>)"
    let ?grid = "enemies (spawn_enemies (g\<lparr>level := level g + 1\<rparr>))"
    let ?moved = "map (\<lambda>e. e\<lparr>e_rect := (e_rect e)\<lparr>rect_x := rect_x (e_rect e) + e_speed e\<rparr>\<rparr>) ?grid"
    let ?a = "?s\<lparr>enemies := ?moved\<rparr>"
    from h have resp: "respawn_if_empty ?g0 = ?s" by (simp add: respawn_if_empty_def)
    have grid: "enemies ?s = ?grid" by (rule spawn_enemies_level) simp
    have mv: "move_x 1 = (\<lambda>e. e\<lparr>e_rect := (e_rect e)\<lparr>rect_x := rect_x (e_rect e) + e_speed e\<rparr>\<rparr>)"
      by (rule ext) (simp add: move_x_def)
    have adv: "advance_enemies ?s = Inr ?a" by (simp add: advance_fresh grid mv)
    have en: "enemies ?a = ?moved" by simp
    have rows: "list_all (\<lambda>e. rect_y (e_rect e) \<le> 200 \<and> rect_h (e_rect e) = 30) ?moved"
      using spawn_rows [of "g\<lparr>level := level g + 1\<rparr>"] by (simp add: list_all_iff)
    obtain bs es sc where bl: "bullet_loop (bullets ?a) (enemies ?a) (score ?a) = (bs, es, sc)"
      by (cases "bullet_loop (bullets ?a) (enemies ?a) (score ?a)") auto
    from bullet_loop_props [OF bl] en have sub: "subseq es ?moved" by simp
    let ?g1 = "?a\<lparr>bullets := bs, enemies := es, score := sc\<rparr>"
    have pl: "p_rect (player ?g1) = p_rect (player g)" by simp
    from subseq_list_all [OF sub rows]
    have "list_all (\<lambda>e. rect_y (e_rect e) \<le> 200 \<and> rect_h (e_rect e) = 30) es" .
    then have "list_all (\<lambda>e. \<not> colliderect (e_rect e) (p_rect (player ?g1))
                         \<and> \<not> HEIGHT - 80 \<le> bottom (e_rect e)) es"
      using h high_enemy_clear [of _ "p_rect (player g)"] by (auto simp: pl list_all_iff)
    from enemy_loop_clear [OF this] have "enemy_loop evss es ?g1 = Some ?g1" .
    with bl have "handle_collisions evss ?a = Some ?g1" by (simp add: handle_collisions_def)
    then have up: "update evss g = Inr (Some ?g1)" by (simp add: update_def resp adv)
    have f: "level ?g1 = level g + 1" "enemy_direction ?g1 = 1"
      "lives (player ?g1) = lives (player g)" "enemies ?g1 = es"
      by simp_all
    from adv resp have first: "advance_enemies (respawn_if_empty ?g0)
        = Inr ((respawn_if_empty ?g0)\<lparr>enemies := ?moved\<rparr>)" by simp
    from up f sub have "\<exists>g'. update evss g = Inr (Some g')
              \<and> level g' = level g + 1 \<and> enemy_direction g' = 1
              \<and> lives (player g') = lives (player g)
              \<and> subseq (enemies g') ?moved" by auto
    with first show "advance_enemies (respawn_if_empty ?g0)
          = Inr ((respawn_if_empty ?g0)\<lparr>enemies := ?moved\<rparr>)
        \<and> (\<exists>g'. update evss g = Inr (Some g')
              \<and> level g' = level g + 1 \<and> enemy_direction g' = 1
              \<and> lives (player g') = lives (player g)
              \<and> subseq (enemies g') ?moved)" by blast
  qed
  from inv main show ?thesis by blast
qed


lemma wave_cleared_fields:
  "enemies wave_cleared = []" "bullets wave_cleared = []" "level wave_cleared = 1"
  "player wave_cleared = Player_init" "score wave_cleared = 0" "running wave_cleared"
  "enemy_direction wave_cleared = 1"
  by (simp_all add: wave_cleared_def game_init_fields)

lemma spawn_level_2:
  "enemies (spawn_enemies (wave_cleared\<lparr>level := 2\<rparr>))
     = map (\<lambda>(a, b). \<lparr>e_rect = Rect a b 40 30, e_speed = 2\<rparr>)
         [(170, 50), (230, 50), (290, 50), (350, 50), (410, 50), (470, 50), (530, 50), (590, 50),
          (170, 100), (230, 100), (290, 100), (350, 100), (410, 100), (470, 100), (530, 100), (590, 100),
          (170, 150), (230, 150), (290, 150), (350, 150), (410, 150), (470, 150), (530, 150), (590, 150),
          (170, 200), (230, 200), (290, 200), (350, 200), (410, 200), (470, 200), (530, 200), (590, 200)]"
  by (simp add: spawn_enemies_def spawn_row_def consts_defs upto_0_3 upto_0_7 Let_def)

lemma update_wave_cleared: "update [] wave_cleared = Inr (Some wave_cleared_after)"
proof -
  let ?g0 = "update_bullets wave_cleared"
  have g0: "?g0 = wave_cleared"
    by (simp add: update_bullets_def wave_cleared_fields Player_update_def Player_init_def)
  have r: "respawn_if_empty wave_cleared = spawn_enemies (wave_cleared\<lparr>level := 2\<rparr>)"
    by (simp add: respawn_if_empty_def wave_cleared_fields)
  show ?thesis
    unfolding update_def g0 r advance_fresh wave_cleared_after_def
    by (simp add: spawn_level_2 handle_collisions_def wave_cleared_fields move_x_def
          colliderect_def bottom_def Rect_def Player_init_def consts_defs)
qed

lemma wave_cleared_after_fields:
  "level wave_cleared_after = 2" "enemy_direction wave_cleared_after = 1"
  "length (enemies wave_cleared_after) = 32"
  "hd (enemies wave_cleared_after) = \<lparr>e_rect = Rect 172 50 40 30, e_speed = 2\<rparr>"
  "lives (player wave_cleared_after) = 3"
  by (simp_all add: wave_cleared_after_def wave_cleared_fields Player_init_def consts_defs)

theorem spawn_tick_advances_witness:
  "reachable game_init \<and> rect_y (p_rect (player game_init)) = 540
   \<and> rect_h (p_rect (player game_init)) = 30
   \<and> enemies wave_cleared = []
   \<and> 230 \<le> rect_y (p_rect (player wave_cleared)) \<and> 0 \<le> rect_h (p_rect (player wave_cleared))
   \<and> update [] wave_cleared = Inr (Some wave_cleared_after)
   \<and> level wave_cleared_after = level wave_cleared + 1
   \<and> enemy_direction wave_cleared_after = 1
   \<and> lives (player wave_cleared_after) = lives (player wave_cleared)
   \<and> length (enemies wave_cleared_after) = 32
   \<and> hd (enemies wave_cleared_after) = \<lparr>e_rect = Rect 172 50 40 30, e_speed = 2\<rparr>"
proof -
  have i: "reachable game_init" by (rule reachable.start)
  have h: "enemies wave_cleared = [] \<and> 230 \<le> rect_y (p_rect (player wave_cleared))
         \<and> 0 \<le> rect_h (p_rect (player wave_cleared))"
    by (simp add: wave_cleared_fields Player_init_def Rect_def HEIGHT_def)
  from spawn_tick_advances [of game_init "[]"] spawn_tick_advances [of wave_cleared "[]"] i h
  have t: "rect_y (p_rect (player game_init)) = HEIGHT - 60"
    "rect_h (p_rect (player game_init)) = 30"
    "\<exists>g'. update [] wave_cleared = Inr (Some g') \<and> level g' = level wave_cleared + 1
        \<and> enemy_direction g' = 1 \<and> lives (player g') = lives (player wave_cleared)"
    by blast+
  from t(3) have u: "level wave_cleared_after = level wave_cleared + 1"
    "enemy_direction wave_cleared_after = 1"
    "lives (player wave_cleared_after) = lives (player wave_cleared)"
    by (auto simp: update_wave_cleared)
  from t(1) have y: "rect_y (p_rect (player game_init)) = 540" by (simp add: HEIGHT_def)
  from h have h': "enemies wave_cleared = []" "230 \<le> rect_y (p_rect (player wave_cleared))"
    "0 \<le> rect_h (p_rect (player wave_cleared))" by simp_all
  from i y t(2) h' update_wave_cleared u wave_cleared_after_fields(3,4) show ?thesis
    by (intro conjI)
qed

text \<open>
  Claim C1 as stated fails: the tick that starts on the cleared board at level 1 ends with
  32 enemies of level 2, the first at \<open>x = 172\<close>, while the spawn grid has it at
  \<open>x = 170\<close>; no spawn-grid rectangle is occupied by it.
\<close>

theorem spawn_tick_no_advance_counterexample:
  "enemies wave_cleared = []
   \<and> tick idle wave_cleared = Inr (Some wave_cleared_after)
   \<and> level wave_cleared_after = level wave_cleared + 1
   \<and> length (enemies wave_cleared_after) = 32
   \<and> hd (enemies (spawn_enemies (wave_cleared\<lparr>level := 2\<rparr>)))
       = \<lparr>e_rect = Rect 170 50 40 30, e_speed = 2\<rparr>
   \<and> hd (enemies wave_cleared_after) = \<lparr>e_rect = Rect 172 50 40 30, e_speed = 2\<rparr>
   \<and> \<not> List.member (map e_rect (enemies (spawn_enemies (wave_cleared\<lparr>level := 2\<rparr>))))
         (e_rect (hd (enemies wave_cleared_after)))"
proof -
  have he: "handle_events idle wave_cleared = wave_cleared"
    by (simp add: handle_events_def idle_def Let_def)
  have t: "tick idle wave_cleared = update [] wave_cleared"
    by (simp add: tick_def he) (simp add: idle_def)
  show ?thesis
    unfolding t
    by (simp add: update_wave_cleared wave_cleared_after_fields spawn_level_2 wave_cleared_fields)
       (simp add: wave_cleared_after_def Rect_def)
qed


subsection \<open>Speeds grow\<close>




















end
